theory Spec2Isabelle
  imports Main "HOL-Library.AList" "HOL-Library.Multiset"
begin

section \<open>The ballot session of the online voting portal\<close>

text \<open>
  The repository keeps several versions of the \<^verbatim>\<open>Voting\<close> component. Two of them are
  embedded here, handler by handler:
  \<^item> \<^verbatim>\<open>src/unnamed/part_000\<close>: \<^verbatim>\<open>handleSelectCandidate\<close>, \<^verbatim>\<open>toggleSkip\<close>,
    \<^verbatim>\<open>handleNext\<close>, \<^verbatim>\<open>handleBack\<close>, \<^verbatim>\<open>handleSubmit\<close>, \<^verbatim>\<open>isPositionSelected\<close>
    (submission demands a candidate for every position);
  \<^item> \<^verbatim>\<open>src/unnamed/part_001\<close>: \<^verbatim>\<open>selectCandidate\<close>, \<^verbatim>\<open>toggleSkip\<close> (here
    \<open>toggleSkip_001\<close>), \<^verbatim>\<open>submitVote\<close>, \<^verbatim>\<open>canProceed\<close> (submission sends whatever
    candidates were chosen).
  The versions in \<^verbatim>\<open>part_002\<close> and \<^verbatim>\<open>part_004\<close> combine the same pieces: the
  \<^verbatim>\<open>handleSubmit\<close> of \<^verbatim>\<open>part_000\<close> with the advance test of \<^verbatim>\<open>part_001\<close>.
\<close>

subsection \<open>Data (src/types.ts)\<close>

record Voter =
  Voter_id :: int
  Voter_username :: string
  Voter_has_voted :: bool

record Candidate =
  Candidate_id :: int
  Candidate_name :: string
  Candidate_position :: string
  Candidate_photo_url :: string
  Candidate_created_at :: string

record Vote =
  voter_id :: int
  candidate_id :: int

text \<open>
  \<^verbatim>\<open>type Selections = Record<string, number | null>\<close>. A value is \<open>None\<close> for
  \<^verbatim>\<open>null\<close> and \<open>Some c\<close> for the number \<open>c\<close>. The object is the list of its own
  properties in the order they were created; keys are distinct.
\<close>

type_synonym Selections = "(string \<times> int option) list"

text \<open>
  \<^verbatim>\<open>s[k]\<close>. The outer \<open>None\<close> says that the object has no own property \<open>k\<close>: the
  read then gives \<^verbatim>\<open>undefined\<close> or something inherited from \<^verbatim>\<open>Object.prototype\<close>,
  in either case neither \<^verbatim>\<open>null\<close> nor the number of a candidate.
\<close>

definition obj_get :: "Selections \<Rightarrow> string \<Rightarrow> int option option" where
  "obj_get s k = map_of s k"

text \<open>
  \<^verbatim>\<open>{ ...s, [k]: v }\<close>: a property that exists keeps its place and takes the new value,
  a new property is created last. A computed key defines an own property whatever its
  name, \<^verbatim>\<open>__proto__\<close> included.
\<close>

definition obj_set :: "Selections \<Rightarrow> string \<Rightarrow> int option \<Rightarrow> Selections" where
  "obj_set s k v = AList.update k v s"

text \<open>
  The assignment \<^verbatim>\<open>acc[k] = null\<close> to an object under construction, as the loaders
  do it. The first component tells whether the object still inherits from
  \<^verbatim>\<open>Object.prototype\<close>. While it does and has no own property \<^verbatim>\<open>__proto__\<close>, an
  assignment to \<^verbatim>\<open>__proto__\<close> runs the inherited setter: the prototype becomes
  \<^verbatim>\<open>null\<close> and no property is created. Every other assignment creates or overwrites
  an own property.
\<close>

definition assign_null :: "bool \<times> Selections \<Rightarrow> string \<Rightarrow> bool \<times> Selections" where
  "assign_null acc k =
     (if k = ''__proto__'' \<and> fst acc \<and> k \<notin> set (map fst (snd acc))
      then (False, snd acc)
      else (fst acc, obj_set (snd acc) k None))"

text \<open>
  The order in which JavaScript enumerates own properties: keys that are array indices
  (canonical decimal numerals below \<open>2^32 - 1\<close>) first, in ascending numeric order, then
  the other string keys in creation order.
\<close>

definition is_digit :: "char \<Rightarrow> bool" where
  "is_digit c = (c \<in> set ''0123456789'')"

definition digits_value :: "string \<Rightarrow> nat" where
  "digits_value s = foldl (\<lambda>n c. 10 * n + (of_char c - 48)) 0 s"

definition array_index :: "string \<Rightarrow> nat option" where
  "array_index k =
     (if k \<noteq> [] \<and> list_all is_digit k \<and> (k = ''0'' \<or> hd k \<noteq> CHR ''0'')
         \<and> digits_value k < 4294967295
      then Some (digits_value k) else None)"

definition own_properties :: "Selections \<Rightarrow> (string \<times> int option) list" where
  "own_properties s =
     sort_key (\<lambda>kv. the (array_index (fst kv))) (filter (\<lambda>kv. array_index (fst kv) \<noteq> None) s)
     @ filter (\<lambda>kv. array_index (fst kv) = None) s"

definition Object_values :: "Selections \<Rightarrow> int option list" where
  "Object_values s = map snd (own_properties s)"

definition Object_entries :: "Selections \<Rightarrow> (string \<times> int option) list" where
  "Object_entries s = own_properties s"

text \<open>\<^verbatim>\<open>[...new Set(xs)]\<close>: the distinct elements in first-seen order.\<close>

definition spread_Set :: "string list \<Rightarrow> string list" where
  "spread_Set xs = rev (remdups (rev xs))"

subsection \<open>Component state\<close>

text \<open>
  The \<^verbatim>\<open>useState\<close> variables of \<^verbatim>\<open>Voting\<close>; \<^verbatim>\<open>showSummary\<close> and
  \<^verbatim>\<open>submitTime\<close> exist in part_002 and part_004 only. \<^verbatim>\<open>isLoading\<close> (the loading
  screen while the candidates are fetched) and \<^verbatim>\<open>showModal\<close> (the welcome overlay) are
  left out.
\<close>

record VotingState =
  candidates :: "Candidate list"
  positions :: "string list"
  selections :: Selections
  currentPage :: nat
  isSubmitting :: bool
  error :: "string option"
  skipped :: "string set"
  showSummary :: bool
  submitTime :: "int option"

definition initial_state :: VotingState where
  "initial_state =
     \<lparr>candidates = [], positions = [], selections = [], currentPage = 0,
      isSubmitting = False, error = None, skipped = {}, showSummary = False,
      submitTime = None\<rparr>"

text \<open>The answer of a Supabase query, \<^verbatim>\<open>{ data, error }\<close>; the error is its message.\<close>

datatype 'a response = Response (resp_data: "'a option") (resp_error: "string option")

text \<open>
  \<^verbatim>\<open>loadCandidates\<close> (part_000, lines 25-52): a fetch error is thrown and caught into
  \<^verbatim>\<open>error\<close>; without data nothing else changes. The selections start as
  \<^verbatim>\<open>{}\<close> and take one assignment \<^verbatim>\<open>acc[pos] = null\<close> per position.
\<close>

definition loadCandidates :: "Candidate list response \<Rightarrow> VotingState \<Rightarrow> VotingState" where
  "loadCandidates r st =
     (let st1 = st\<lparr>error := None\<rparr> in
      case resp_error r of
        Some msg \<Rightarrow> st1\<lparr>error := Some (''Error loading candidates: '' @ msg)\<rparr>
      | None \<Rightarrow>
          (case resp_data r of
             None \<Rightarrow> st1
           | Some data \<Rightarrow>
               (let uniquePositions = spread_Set (map Candidate_position data) in
                st1\<lparr>candidates := data,
                    positions := uniquePositions,
                    selections := snd (foldl assign_null (True, []) uniquePositions)\<rparr>)))"

text \<open>
  \<^verbatim>\<open>loadCandidates\<close> (part_001, lines 46-70) has no test for missing data:
  \<^verbatim>\<open>data.map\<close> on \<^verbatim>\<open>null\<close> throws a TypeError, whose message (the engine's) is the
  first argument here.
\<close>

definition loadCandidates_001 ::
  "string \<Rightarrow> Candidate list response \<Rightarrow> VotingState \<Rightarrow> VotingState" where
  "loadCandidates_001 typeError r st =
     (let st1 = st\<lparr>error := None\<rparr> in
      case resp_error r of
        Some msg \<Rightarrow> st1\<lparr>error := Some (''Failed to load candidates: '' @ msg)\<rparr>
      | None \<Rightarrow>
          (case resp_data r of
             None \<Rightarrow> st1\<lparr>error := Some (''Failed to load candidates: '' @ typeError)\<rparr>
           | Some data \<Rightarrow>
               (let uniquePositions = spread_Set (map Candidate_position data) in
                st1\<lparr>positions := uniquePositions,
                    candidates := data,
                    selections := snd (foldl assign_null (True, []) uniquePositions)\<rparr>)))"

subsection \<open>Selecting and skipping\<close>

text \<open>\<^verbatim>\<open>handleSelectCandidate\<close> (part_000, lines 58-68).\<close>

definition handleSelectCandidate :: "string \<Rightarrow> int \<Rightarrow> VotingState \<Rightarrow> VotingState" where
  "handleSelectCandidate position candidateId st =
     st\<lparr>selections := obj_set (selections st) position (Some candidateId),
        skipped := skipped st - {position}\<rparr>"

text \<open>\<^verbatim>\<open>selectCandidate\<close> (part_001, lines 77-84).\<close>

definition selectCandidate :: "string \<Rightarrow> int \<Rightarrow> VotingState \<Rightarrow> VotingState" where
  "selectCandidate pos ident st =
     st\<lparr>selections := obj_set (selections st) pos (Some ident),
        skipped := skipped st - {pos}\<rparr>"

text \<open>
  \<^verbatim>\<open>toggleSkip\<close> (part_000, lines 70-82). \<^verbatim>\<open>s[position] ?? null\<close> is the value of
  the property when it is a number, and \<^verbatim>\<open>null\<close> when it is \<^verbatim>\<open>null\<close> or missing.
\<close>

definition toggleSkip :: "string \<Rightarrow> VotingState \<Rightarrow> VotingState" where
  "toggleSkip position st =
     (if position \<in> skipped st
      then st\<lparr>skipped := skipped st - {position},
              selections := obj_set (selections st) position
                 (case obj_get (selections st) position of Some (Some c) \<Rightarrow> Some c | _ \<Rightarrow> None)\<rparr>
      else st\<lparr>skipped := insert position (skipped st),
              selections := obj_set (selections st) position None\<rparr>)"

text \<open>\<^verbatim>\<open>toggleSkip\<close> (part_001, lines 86-97): un-skipping leaves the selections alone.\<close>

definition toggleSkip_001 :: "string \<Rightarrow> VotingState \<Rightarrow> VotingState" where
  "toggleSkip_001 pos st =
     (if pos \<in> skipped st
      then st\<lparr>skipped := skipped st - {pos}\<rparr>
      else st\<lparr>skipped := insert pos (skipped st),
              selections := obj_set (selections st) pos None\<rparr>)"

text \<open>
  The entry of a position as the specification names it, read from the two state
  variables the way the review page prints it
  (\<^verbatim>\<open>isSkipped ? 'Skipped' : selectedCandidate?.name || 'Not selected'\<close>).
\<close>

datatype entry = Unset | Chosen int | Skipped

definition entry_of :: "VotingState \<Rightarrow> string \<Rightarrow> entry" where
  "entry_of st p =
     (if p \<in> skipped st then Skipped
      else case obj_get (selections st) p of Some (Some c) \<Rightarrow> Chosen c | _ \<Rightarrow> Unset)"

text \<open>
  \<^verbatim>\<open>isComplete\<close> of the specification: the per-position test inside \<^verbatim>\<open>canProceed\<close>
  (part_001, line 149), \<^verbatim>\<open>selections[p] !== null || skipped.has(p)\<close>.
\<close>

definition isComplete :: "VotingState \<Rightarrow> string \<Rightarrow> bool" where
  "isComplete st p = (obj_get (selections st) p \<noteq> Some None \<or> p \<in> skipped st)"

subsection \<open>Pages\<close>

text \<open>\<^verbatim>\<open>positions[currentPage]\<close>: \<open>None\<close> is \<^verbatim>\<open>undefined\<close>, past the last position.\<close>

definition currentPosition :: "VotingState \<Rightarrow> string option" where
  "currentPosition st =
     (if currentPage st < length (positions st) then Some (positions st ! currentPage st)
      else None)"

definition isLastPage :: "VotingState \<Rightarrow> bool" where
  "isLastPage st = (currentPage st = length (positions st))"

text \<open>
  \<^verbatim>\<open>isPositionSelected\<close> (part_000, line 149). The condition of the \<^verbatim>\<open>?:\<close> is the
  truthiness of a string: \<^verbatim>\<open>undefined\<close> and the empty string take the else branch.
\<close>

definition isPositionSelected :: "VotingState \<Rightarrow> bool" where
  "isPositionSelected st =
     (case currentPosition st of
        None \<Rightarrow> True
      | Some p \<Rightarrow> if p \<noteq> [] then obj_get (selections st) p \<noteq> Some None else True)"

text \<open>
  \<^verbatim>\<open>canProceed\<close> (part_001, lines 148-150); \<^verbatim>\<open>isPositionSelected\<close> of part_002
  (lines 345-347) and part_004 (lines 171-173) is the same expression.
\<close>

definition canProceed :: "VotingState \<Rightarrow> bool" where
  "canProceed st =
     (case currentPosition st of
        None \<Rightarrow> True
      | Some p \<Rightarrow> if p \<noteq> [] then isComplete st p else True)"

text \<open>\<^verbatim>\<open>handleNext\<close>, \<^verbatim>\<open>handleBack\<close> (part_000, lines 84-94) and the review page's Edit.\<close>

definition handleNext :: "VotingState \<Rightarrow> VotingState" where
  "handleNext st =
     (if currentPage st < length (positions st) then st\<lparr>currentPage := currentPage st + 1\<rparr>
      else st)"

definition handleBack :: "VotingState \<Rightarrow> VotingState" where
  "handleBack st = (if currentPage st > 0 then st\<lparr>currentPage := currentPage st - 1\<rparr> else st)"

definition editPosition :: "nat \<Rightarrow> VotingState \<Rightarrow> VotingState" where
  "editPosition idx st = st\<lparr>currentPage := idx\<rparr>"

subsection \<open>Submission\<close>

text \<open>
  What a submission reads from outside the component:
  \<^item> \<open>clock\<close>: \<^verbatim>\<open>new Date()\<close> at the deadline test, in milliseconds;
  \<^item> \<open>deadline_query\<close>: the rows of \<^verbatim>\<open>settings\<close> whose key is
    \<^verbatim>\<open>voting_deadline\<close>, each row given as \<^verbatim>\<open>new Date(row.value)\<close> reads it
    (\<open>None\<close> is an invalid date);
  \<^item> \<open>insert_error\<close>, \<open>update_error\<close>: the error, if any, that the store answers to
    the insert into \<^verbatim>\<open>votes\<close> and to the update of \<^verbatim>\<open>voters\<close>.
\<close>

record Environment =
  clock :: int
  deadline_query :: "int option list response"
  insert_error :: "Vote list \<Rightarrow> string option"
  update_error :: "int \<Rightarrow> string option"

text \<open>The writes sent to the store, in the order they are sent.\<close>

datatype store_write = InsertVotes "Vote list" | MarkVoted int

text \<open>
  How a submission ends, under the specification's names:
  \<^item> \<open>Submitted\<close>: \<^verbatim>\<open>onVoteSuccess()\<close> is called;
  \<^item> \<open>DeadlineExpired\<close>: the alert \<^verbatim>\<open>Voting has ended. ...\<close>;
  \<^item> \<open>IncompleteBallot\<close>: the alert \<^verbatim>\<open>Please complete all positions before submitting.\<close>;
  \<^item> \<open>SubmissionError\<close>: the \<^verbatim>\<open>catch\<close> block, with the message of the error thrown.
\<close>

datatype outcome = Submitted | DeadlineExpired | IncompleteBallot | SubmissionError string

text \<open>\<^verbatim>\<open>new Date() > new Date(value)\<close>: false when the value is not a date.\<close>

definition deadline_passed :: "int \<Rightarrow> int option \<Rightarrow> bool" where
  "deadline_passed now d = (case d of None \<Rightarrow> False | Some t \<Rightarrow> now > t)"

text \<open>
  The deadline test of \<^verbatim>\<open>handleSubmit\<close> (part_000, line 109):
  \<^verbatim>\<open>settings && settings.length > 0 && new Date() > new Date(settings[0].value)\<close>.
\<close>

definition votingHasEnded :: "Environment \<Rightarrow> bool" where
  "votingHasEnded env =
     (case resp_data (deadline_query env) of
        Some (row # _) \<Rightarrow> deadline_passed (clock env) row
      | _ \<Rightarrow> False)"

text \<open>The vote records of \<^verbatim>\<open>handleSubmit\<close> (part_000, lines 115 and 122-125).\<close>

definition filledPositions :: "VotingState \<Rightarrow> int option list" where
  "filledPositions st = filter (\<lambda>val. val \<noteq> None) (Object_values (selections st))"

definition votes_of :: "Voter \<Rightarrow> VotingState \<Rightarrow> Vote list" where
  "votes_of voter st =
     map (\<lambda>candidateId. \<lparr>voter_id = Voter_id voter, candidate_id = the candidateId\<rparr>)
       (filledPositions st)"

text \<open>\<^verbatim>\<open>handleSubmit\<close> (part_000, lines 96-143).\<close>

definition handleSubmit ::
  "Voter \<Rightarrow> Environment \<Rightarrow> VotingState \<Rightarrow> outcome \<times> store_write list \<times> VotingState" where
  "handleSubmit voter env st =
     (let st1 = st\<lparr>isSubmitting := True, error := None\<rparr>;
          thrown = (\<lambda>msg ws.
            (SubmissionError msg, ws,
             st1\<lparr>error := Some (''Error submitting vote: '' @ msg), isSubmitting := False\<rparr>))
      in
      case resp_error (deadline_query env) of
        Some msg \<Rightarrow> thrown msg []
      | None \<Rightarrow>
          if votingHasEnded env
          then (DeadlineExpired, [], st1\<lparr>isSubmitting := False\<rparr>)
          else if length (filledPositions st) \<noteq> length (positions st)
          then (IncompleteBallot, [], st1\<lparr>isSubmitting := False\<rparr>)
          else
            (let votes = votes_of voter st in
             case insert_error env votes of
               Some msg \<Rightarrow> thrown msg [InsertVotes votes]
             | None \<Rightarrow>
                 (case update_error env (Voter_id voter) of
                    Some msg \<Rightarrow> thrown msg [InsertVotes votes, MarkVoted (Voter_id voter)]
                  | None \<Rightarrow>
                      (Submitted, [InsertVotes votes, MarkVoted (Voter_id voter)],
                       st1\<lparr>isSubmitting := False\<rparr>))))"

text \<open>
  \<^verbatim>\<open>.single()\<close> of the Supabase client: the row when the query answers exactly one
  row, otherwise \<^verbatim>\<open>null\<close> (with an error that \<^verbatim>\<open>submitVote\<close> does not read).
\<close>

definition single :: "'a list response \<Rightarrow> 'a option" where
  "single r =
     (case resp_error r of
        Some _ \<Rightarrow> None
      | None \<Rightarrow> (case resp_data r of Some [row] \<Rightarrow> Some row | _ \<Rightarrow> None))"

text \<open>
  The deadline test of \<^verbatim>\<open>submitVote\<close> (part_001, line 114):
  \<^verbatim>\<open>settings && new Date() > new Date(settings.value)\<close>.
\<close>

definition votingHasEnded_001 :: "Environment \<Rightarrow> bool" where
  "votingHasEnded_001 env =
     (case single (deadline_query env) of
        Some row \<Rightarrow> deadline_passed (clock env) row
      | None \<Rightarrow> False)"

text \<open>The vote records of \<^verbatim>\<open>submitVote\<close> (part_001, lines 119-121).\<close>

definition votes_of_001 :: "Voter \<Rightarrow> VotingState \<Rightarrow> Vote list" where
  "votes_of_001 voter st =
     map (\<lambda>(_, ident). \<lparr>voter_id = Voter_id voter, candidate_id = the ident\<rparr>)
       (filter (\<lambda>(_, ident). ident \<noteq> None) (Object_entries (selections st)))"

text \<open>\<^verbatim>\<open>submitVote\<close> (part_001, lines 102-140).\<close>

definition submitVote ::
  "Voter \<Rightarrow> Environment \<Rightarrow> VotingState \<Rightarrow> outcome \<times> store_write list \<times> VotingState" where
  "submitVote voter env st =
     (let st1 = st\<lparr>isSubmitting := True, error := None\<rparr>;
          finished = st1\<lparr>isSubmitting := False\<rparr>
      in
      if votingHasEnded_001 env
      then (DeadlineExpired, [], finished)
      else
        (let votes = votes_of_001 voter st;
             inserted = (if length votes > 0 then [InsertVotes votes] else [])
         in
         case (if length votes > 0 then insert_error env votes else None) of
           Some msg \<Rightarrow> (SubmissionError msg, inserted, finished)
         | None \<Rightarrow>
             (case update_error env (Voter_id voter) of
                Some msg \<Rightarrow>
                  (SubmissionError msg, inserted @ [MarkVoted (Voter_id voter)], finished)
              | None \<Rightarrow> (Submitted, inserted @ [MarkVoted (Voter_id voter)], finished))))"

text \<open>
  \<^verbatim>\<open>handleSubmit\<close> (part_004, lines 121-165). Its tests and writes are those of
  part_000; its \<^verbatim>\<open>catch\<close> only alerts and does not set \<^verbatim>\<open>error\<close>, and on success
  it records the time (a second \<^verbatim>\<open>new Date()\<close>, the third argument here) and shows the
  summary.
\<close>

definition handleSubmit_004 ::
  "Voter \<Rightarrow> Environment \<Rightarrow> int \<Rightarrow> VotingState \<Rightarrow> outcome \<times> store_write list \<times> VotingState"
  where
  "handleSubmit_004 voter env later st =
     (let st1 = st\<lparr>isSubmitting := True, error := None\<rparr>;
          finished = st1\<lparr>isSubmitting := False\<rparr>
      in
      case resp_error (deadline_query env) of
        Some msg \<Rightarrow> (SubmissionError msg, [], finished)
      | None \<Rightarrow>
          if votingHasEnded env
          then (DeadlineExpired, [], finished)
          else if length (filledPositions st) \<noteq> length (positions st)
          then (IncompleteBallot, [], finished)
          else
            (let votes = votes_of voter st in
             case insert_error env votes of
               Some msg \<Rightarrow> (SubmissionError msg, [InsertVotes votes], finished)
             | None \<Rightarrow>
                 (case update_error env (Voter_id voter) of
                    Some msg \<Rightarrow>
                      (SubmissionError msg, [InsertVotes votes, MarkVoted (Voter_id voter)],
                       finished)
                  | None \<Rightarrow>
                      (Submitted, [InsertVotes votes, MarkVoted (Voter_id voter)],
                       finished\<lparr>submitTime := Some later, showSummary := True\<rparr>))))"

text \<open>
  When the form (the candidate options, Next, Back, Submit) is drawn at all: the
  component returns the error text alone when \<^verbatim>\<open>error\<close> is set and the empty screen
  when there is no position (part_000, lines 163-181; part_004, lines 177-178), and
  part_004 draws the form only while the summary is not shown (line 257).
\<close>

definition form_rendered :: "VotingState \<Rightarrow> bool" where
  "form_rendered st = (error st = None \<and> positions st \<noteq> [] \<and> \<not> showSummary st)"

subsection \<open>Sessions\<close>

text \<open>
  What the voter can do on the page. The candidate options and the skip button exist on
  a question page only and act on \<^verbatim>\<open>positions[currentPage]\<close>; Edit exists once per
  position. Next, Back and Submit are taken with the guards of their handlers alone, and
  every action is taken whether or not the form is drawn, so the states below include
  every state the buttons can produce (and more).
\<close>

datatype flow = Strict | Permissive

datatype action =
  Select int | Skip | Next | Back | Edit nat | Submit Voter Environment

fun enabled :: "action \<Rightarrow> VotingState \<Rightarrow> bool" where
  "enabled (Select c) st = (currentPosition st \<noteq> None)"
| "enabled Skip st = (currentPosition st \<noteq> None)"
| "enabled (Edit idx) st = (idx < length (positions st))"
| "enabled _ st = True"

fun perform :: "flow \<Rightarrow> action \<Rightarrow> VotingState \<Rightarrow> VotingState" where
  "perform Strict (Select c) st = handleSelectCandidate (the (currentPosition st)) c st"
| "perform Permissive (Select c) st = selectCandidate (the (currentPosition st)) c st"
| "perform Strict Skip st = toggleSkip (the (currentPosition st)) st"
| "perform Permissive Skip st = toggleSkip_001 (the (currentPosition st)) st"
| "perform _ Next st = handleNext st"
| "perform _ Back st = handleBack st"
| "perform _ (Edit idx) st = editPosition idx st"
| "perform Strict (Submit voter env) st = snd (snd (handleSubmit voter env st))"
| "perform Permissive (Submit voter env) st = snd (snd (submitVote voter env st))"

inductive reachable :: "flow \<Rightarrow> VotingState \<Rightarrow> bool" where
  mounted: "reachable f initial_state"
| loaded: "reachable Strict (loadCandidates r initial_state)"
| loaded_001: "reachable Permissive (loadCandidates_001 typeError r initial_state)"
| acted: "reachable f st \<Longrightarrow> enabled a st \<Longrightarrow> reachable f (perform f a st)"

text \<open>
  Two properties of a state: the own keys of \<^verbatim>\<open>selections\<close> are distinct and are
  positions of the ballot, which are distinct too; and no skipped position holds a
  candidate.
\<close>

definition keys_within_positions :: "VotingState \<Rightarrow> bool" where
  "keys_within_positions st =
     (distinct (map fst (selections st)) \<and>
      set (map fst (selections st)) \<subseteq> set (positions st) \<and>
      distinct (positions st))"

definition skip_excludes_choice :: "VotingState \<Rightarrow> bool" where
  "skip_excludes_choice st =
     (\<forall>p. \<not> (p \<in> skipped st \<and> (\<exists>c. obj_get (selections st) p = Some (Some c))))"

subsection \<open>A sample ballot\<close>

text \<open>
  The ballot of the specification's end-to-end scenarios: two positions with two
  candidates each, a voter, and a store that accepts every write.
\<close>

definition sample_candidates :: "Candidate list" where
  "sample_candidates =
     [\<lparr>Candidate_id = 1, Candidate_name = ''Ada'', Candidate_position = ''Best Speaker'',
       Candidate_photo_url = [], Candidate_created_at = ''2025-01-01''\<rparr>,
      \<lparr>Candidate_id = 2, Candidate_name = ''Bob'', Candidate_position = ''Best Speaker'',
       Candidate_photo_url = [], Candidate_created_at = ''2025-01-02''\<rparr>,
      \<lparr>Candidate_id = 3, Candidate_name = ''Cy'', Candidate_position = ''Best Dish'',
       Candidate_photo_url = [], Candidate_created_at = ''2025-01-03''\<rparr>,
      \<lparr>Candidate_id = 4, Candidate_name = ''Di'', Candidate_position = ''Best Dish'',
       Candidate_photo_url = [], Candidate_created_at = ''2025-01-04''\<rparr>]"

definition sample_ballot :: VotingState where
  "sample_ballot = loadCandidates (Response (Some sample_candidates) None) initial_state"

definition sample_voter :: Voter where
  "sample_voter = \<lparr>Voter_id = 42, Voter_username = ''voter42'', Voter_has_voted = False\<rparr>"

definition accepting_store :: "int \<Rightarrow> int option list \<Rightarrow> Environment" where
  "accepting_store now rows =
     \<lparr>clock = now, deadline_query = Response (Some rows) None,
      insert_error = (\<lambda>_. None), update_error = (\<lambda>_. None)\<rparr>"

text \<open>A ballot one of whose positions is named \<^verbatim>\<open>__proto__\<close>.\<close>

definition proto_candidates :: "Candidate list" where
  "proto_candidates =
     [\<lparr>Candidate_id = 1, Candidate_name = ''Ada'', Candidate_position = ''__proto__'',
       Candidate_photo_url = [], Candidate_created_at = ''2025-01-01''\<rparr>,
      \<lparr>Candidate_id = 2, Candidate_name = ''Bob'', Candidate_position = ''B'',
       Candidate_photo_url = [], Candidate_created_at = ''2025-01-02''\<rparr>]"

definition proto_ballot :: VotingState where
  "proto_ballot = loadCandidates (Response (Some proto_candidates) None) initial_state"

definition proto_complete :: VotingState where
  "proto_complete =
     handleSelectCandidate ''__proto__'' 1 (handleSelectCandidate ''B'' 2 proto_ballot)"

definition proto_ballot_001 :: VotingState where
  "proto_ballot_001 =
     toggleSkip_001 ''B''
       (loadCandidates_001 [] (Response (Some proto_candidates) None) initial_state)"

definition complete_ballot :: VotingState where
  "complete_ballot =
     handleSelectCandidate ''Best Dish'' 3 (handleSelectCandidate ''Best Speaker'' 1 sample_ballot)"

section \<open>Properties\<close>

subsection \<open>Objects and their enumeration\<close>

lemma obj_get_set: "obj_get (obj_set s k v) k' = (if k' = k then Some v else obj_get s k')"
  by (simp add: obj_get_def obj_set_def update_conv')

lemma keys_obj_set:
  "map fst (obj_set s k v) = (if k \<in> set (map fst s) then map fst s else map fst s @ [k])"
  by (simp add: obj_set_def update_keys)

lemma obj_set_new: "k \<notin> set (map fst s) \<Longrightarrow> obj_set s k v = s @ [(k, v)]"
  unfolding obj_set_def by (induction s) auto

lemma mset_own_properties: "mset (own_properties s) = mset s"
  by (simp add: own_properties_def)

lemma length_Object_values: "length (Object_values s) = length s"
proof -
  have "size (mset (own_properties s)) = size (mset s)"
    by (simp only: mset_own_properties)
  then show ?thesis by (simp add: Object_values_def)
qed

lemma mset_Object_values: "mset (Object_values s) = image_mset snd (mset s)"
  by (simp only: Object_values_def mset_map mset_own_properties)

lemma set_Object_values: "set (Object_values s) = snd ` set s"
proof -
  have "set_mset (mset (Object_values s)) = set_mset (image_mset snd (mset s))"
    by (simp only: mset_Object_values)
  then show ?thesis by simp
qed

lemma distinct_spread_Set: "distinct (spread_Set xs)"
  by (simp add: spread_Set_def)

lemma set_spread_Set: "set (spread_Set xs) = set xs"
  by (simp add: spread_Set_def)

lemma assign_null_all_aux:
  "distinct (ks0 @ ks) \<Longrightarrow>
   foldl assign_null
     (''__proto__'' \<notin> set ks0, map (\<lambda>p. (p, None)) (filter (\<lambda>p. p \<noteq> ''__proto__'') ks0)) ks
     = (''__proto__'' \<notin> set (ks0 @ ks),
        map (\<lambda>p. (p, None)) (filter (\<lambda>p. p \<noteq> ''__proto__'') (ks0 @ ks)))"
proof (induction ks arbitrary: ks0)
  case Nil
  then show ?case by simp
next
  case (Cons k ks)
  have new: "k \<notin> set ks0"
    using Cons.prems by simp
  have step: "assign_null
      (''__proto__'' \<notin> set ks0, map (\<lambda>p. (p, None)) (filter (\<lambda>p. p \<noteq> ''__proto__'') ks0)) k
      = (''__proto__'' \<notin> set (ks0 @ [k]),
         map (\<lambda>p. (p, None)) (filter (\<lambda>p. p \<noteq> ''__proto__'') (ks0 @ [k])))"
  proof (cases "k = ''__proto__''")
    case True
    with new show ?thesis
      by (simp add: assign_null_def comp_def)
  next
    case False
    have "k \<notin> set (map fst (map (\<lambda>p. (p, None :: int option))
                    (filter (\<lambda>p. p \<noteq> ''__proto__'') ks0)))"
      using new by (auto simp: comp_def)
    from obj_set_new [OF this] False show ?thesis
      by (simp add: assign_null_def)
  qed
  have "distinct ((ks0 @ [k]) @ ks)"
    using Cons.prems by simp
  from Cons.IH [OF this] step show ?case by simp
qed

text \<open>
  What the loaders leave in \<^verbatim>\<open>selections\<close>: one \<^verbatim>\<open>null\<close> property per position,
  in page order, except for a position named \<^verbatim>\<open>__proto__\<close>, which gets none.
\<close>

lemma assign_null_all:
  "distinct ks \<Longrightarrow>
   snd (foldl assign_null (True, []) ks)
     = map (\<lambda>p. (p, None)) (filter (\<lambda>p. p \<noteq> ''__proto__'') ks)"
  using assign_null_all_aux [of "[]" ks] by simp

subsection \<open>Invariants of a session\<close>

lemma keys_within_positions_initial: "keys_within_positions initial_state"
  by (simp add: keys_within_positions_def initial_state_def)

lemma keys_within_positions_loadCandidates:
  "keys_within_positions (loadCandidates r initial_state)"
  by (auto simp: keys_within_positions_def loadCandidates_def initial_state_def Let_def
      assign_null_all distinct_spread_Set comp_def distinct_map_filter split: option.splits)

lemma keys_within_positions_loadCandidates_001:
  "keys_within_positions (loadCandidates_001 e r initial_state)"
  by (auto simp: keys_within_positions_def loadCandidates_001_def initial_state_def Let_def
      assign_null_all distinct_spread_Set comp_def distinct_map_filter split: option.splits)

lemma currentPosition_in_positions: "currentPosition st = Some p \<Longrightarrow> p \<in> set (positions st)"
  by (auto simp: currentPosition_def split: if_splits)

lemma handleSubmit_frame:
  "positions (snd (snd (handleSubmit voter env st))) = positions st \<and>
   selections (snd (snd (handleSubmit voter env st))) = selections st \<and>
   skipped (snd (snd (handleSubmit voter env st))) = skipped st \<and>
   currentPage (snd (snd (handleSubmit voter env st))) = currentPage st \<and>
   candidates (snd (snd (handleSubmit voter env st))) = candidates st \<and>
   \<not> isSubmitting (snd (snd (handleSubmit voter env st)))"
  by (simp add: handleSubmit_def Let_def split: option.splits)

lemma submitVote_frame:
  "snd (snd (submitVote voter env st)) = st\<lparr>isSubmitting := False, error := None\<rparr>"
  by (simp add: submitVote_def Let_def split: option.splits)

lemma keys_within_positions_step:
  assumes "keys_within_positions st"
    and "positions st' = positions st"
    and "selections st' = selections st \<or>
         (\<exists>p v. p \<in> set (positions st) \<and> selections st' = obj_set (selections st) p v)"
  shows "keys_within_positions st'"
proof -
  from assms(1) have dist: "distinct (map fst (selections st))"
    and sub: "set (map fst (selections st)) \<subseteq> set (positions st)"
    and distp: "distinct (positions st)"
    by (simp_all add: keys_within_positions_def)
  have "distinct (map fst (selections st')) \<and>
        set (map fst (selections st')) \<subseteq> set (positions st)"
    using assms(3)
  proof
    assume "selections st' = selections st"
    with dist sub show ?thesis by simp
  next
    assume "\<exists>p v. p \<in> set (positions st) \<and> selections st' = obj_set (selections st) p v"
    then obtain p v where p: "p \<in> set (positions st)"
      and sel: "selections st' = obj_set (selections st) p v"
      by blast
    have "map fst (selections st')
          = (if p \<in> set (map fst (selections st)) then map fst (selections st)
             else map fst (selections st) @ [p])"
      by (simp only: sel keys_obj_set)
    with dist sub p show ?thesis
      by (cases "p \<in> set (map fst (selections st))") simp_all
  qed
  with distp assms(2) show ?thesis
    by (simp add: keys_within_positions_def)
qed

lemma current_position:
  "enabled (Select c) st \<Longrightarrow> the (currentPosition st) \<in> set (positions st)"
  by (auto simp: currentPosition_def split: if_splits)

lemma keys_within_positions_perform:
  assumes "keys_within_positions st" and "enabled a st"
  shows "keys_within_positions (perform f a st)"
proof (rule keys_within_positions_step [OF assms(1)])
  show "positions (perform f a st) = positions st"
    by (cases a; cases f)
      (simp_all add: handleSelectCandidate_def selectCandidate_def toggleSkip_def
        toggleSkip_001_def handleNext_def handleBack_def editPosition_def handleSubmit_frame
        submitVote_frame)
next
  show "selections (perform f a st) = selections st \<or>
        (\<exists>p v. p \<in> set (positions st) \<and> selections (perform f a st) = obj_set (selections st) p v)"
  proof (cases a)
    case (Select c)
    then have "the (currentPosition st) \<in> set (positions st)"
      using assms(2) current_position by simp
    with Select show ?thesis
      by (cases f) (auto simp: handleSelectCandidate_def selectCandidate_def)
  next
    case Skip
    then have "the (currentPosition st) \<in> set (positions st)"
      using assms(2) current_position by simp
    with Skip show ?thesis
      by (cases f) (auto simp: toggleSkip_def toggleSkip_001_def)
  next
    case Next
    then show ?thesis by (cases f) (simp_all add: handleNext_def)
  next
    case Back
    then show ?thesis by (cases f) (simp_all add: handleBack_def)
  next
    case (Edit idx)
    then show ?thesis by (cases f) (simp_all add: editPosition_def)
  next
    case (Submit voter env)
    then show ?thesis by (cases f) (simp_all add: handleSubmit_frame submitVote_frame)
  qed
qed

text \<open>
  In every state of a session the own keys of \<^verbatim>\<open>selections\<close> are distinct positions
  of the ballot.
\<close>

lemma reachable_keys_within_positions: "reachable f st \<Longrightarrow> keys_within_positions st"
  by (induction rule: reachable.induct)
    (simp_all add: keys_within_positions_initial keys_within_positions_loadCandidates
      keys_within_positions_loadCandidates_001 keys_within_positions_perform)

lemma skip_excludes_choice_initial: "skip_excludes_choice initial_state"
  by (simp add: skip_excludes_choice_def initial_state_def)

lemma skip_excludes_choice_loadCandidates: "skip_excludes_choice (loadCandidates r initial_state)"
  by (simp add: skip_excludes_choice_def loadCandidates_def initial_state_def Let_def
      split: option.splits)

lemma skip_excludes_choice_loadCandidates_001:
  "skip_excludes_choice (loadCandidates_001 e r initial_state)"
  by (simp add: skip_excludes_choice_def loadCandidates_001_def initial_state_def Let_def
      split: option.splits)

lemma skip_excludes_choice_handleSelectCandidate:
  "skip_excludes_choice st \<Longrightarrow> skip_excludes_choice (handleSelectCandidate p c st)"
  by (auto simp: skip_excludes_choice_def handleSelectCandidate_def obj_get_set)

lemma skip_excludes_choice_selectCandidate:
  "skip_excludes_choice st \<Longrightarrow> skip_excludes_choice (selectCandidate p c st)"
  by (auto simp: skip_excludes_choice_def selectCandidate_def obj_get_set)

lemma skip_excludes_choice_toggleSkip:
  "skip_excludes_choice st \<Longrightarrow> skip_excludes_choice (toggleSkip p st)"
  by (auto simp: skip_excludes_choice_def toggleSkip_def obj_get_set)

lemma skip_excludes_choice_toggleSkip_001:
  "skip_excludes_choice st \<Longrightarrow> skip_excludes_choice (toggleSkip_001 p st)"
  by (auto simp: skip_excludes_choice_def toggleSkip_001_def obj_get_set)

lemma skip_excludes_choice_perform:
  assumes "skip_excludes_choice st"
  shows "skip_excludes_choice (perform f a st)"
proof (cases a)
  case (Select c)
  with assms show ?thesis
    by (cases f) (simp_all add: skip_excludes_choice_handleSelectCandidate
        skip_excludes_choice_selectCandidate)
next
  case Skip
  with assms show ?thesis
    by (cases f) (simp_all add: skip_excludes_choice_toggleSkip
        skip_excludes_choice_toggleSkip_001)
next
  case Next
  with assms show ?thesis by (cases f) (simp_all add: skip_excludes_choice_def handleNext_def)
next
  case Back
  with assms show ?thesis by (cases f) (simp_all add: skip_excludes_choice_def handleBack_def)
next
  case (Edit idx)
  with assms show ?thesis by (cases f) (simp_all add: skip_excludes_choice_def editPosition_def)
next
  case (Submit voter env)
  with assms show ?thesis
    by (cases f) (simp_all add: skip_excludes_choice_def handleSubmit_frame submitVote_frame)
qed

lemma reachable_skip_excludes_choice: "reachable f st \<Longrightarrow> skip_excludes_choice st"
  by (induction rule: reachable.induct)
    (simp_all add: skip_excludes_choice_initial skip_excludes_choice_loadCandidates
      skip_excludes_choice_loadCandidates_001 skip_excludes_choice_perform)

subsection \<open>The sample ballot, evaluated\<close>

lemma sample_ballot_eq:
  "sample_ballot =
     \<lparr>candidates = sample_candidates, positions = [''Best Speaker'', ''Best Dish''],
      selections = [(''Best Speaker'', None), (''Best Dish'', None)], currentPage = 0,
      isSubmitting = False, error = None, skipped = {}, showSummary = False,
      submitTime = None\<rparr>"
  by (simp add: sample_ballot_def loadCandidates_def sample_candidates_def initial_state_def
      spread_Set_def assign_null_def obj_set_def)

text \<open>
  The position named \<^verbatim>\<open>__proto__\<close> has no property after the load; selecting a
  candidate for it creates the property, after that of the other position.
\<close>

lemma proto_ballot_eq:
  "proto_ballot =
     \<lparr>candidates = proto_candidates, positions = [''__proto__'', ''B''],
      selections = [(''B'', None)], currentPage = 0,
      isSubmitting = False, error = None, skipped = {}, showSummary = False,
      submitTime = None\<rparr>"
  by (simp add: proto_ballot_def loadCandidates_def proto_candidates_def initial_state_def
      spread_Set_def assign_null_def obj_set_def)

lemma proto_ballot_selected:
  "selections (handleSelectCandidate ''__proto__'' 1 (handleSelectCandidate ''B'' 2 proto_ballot))
     = [(''B'', Some 2), (''__proto__'', Some 1)]"
  by (simp add: proto_ballot_eq handleSelectCandidate_def obj_set_def)

lemma canProceed_proto_ballot: "canProceed proto_ballot \<and> isPositionSelected proto_ballot"
  by (simp add: proto_ballot_eq canProceed_def isPositionSelected_def currentPosition_def
      isComplete_def obj_get_def)

lemma reachable_sample_ballot: "reachable Strict sample_ballot"
  unfolding sample_ballot_def by (rule reachable.loaded)

lemma array_index_Best_Speaker: "array_index ''Best Speaker'' = None"
  by (simp add: array_index_def is_digit_def)

lemma array_index_Best_Dish: "array_index ''Best Dish'' = None"
  by (simp add: array_index_def is_digit_def)

subsection \<open>Selecting a candidate\<close>

text \<open>
  C6. Whatever the state, also when the position is skipped in it,
  \<^verbatim>\<open>handleSelectCandidate\<close> (and \<^verbatim>\<open>selectCandidate\<close>) leaves the position holding
  exactly the candidate and not skipped, so the position is complete. And in no state
  that a session reaches, in either flow, is a position skipped while it holds a
  candidate.
\<close>

theorem select_holds_candidate:
  "entry_of (handleSelectCandidate p c st) p = Chosen c \<and>
   obj_get (selections (handleSelectCandidate p c st)) p = Some (Some c) \<and>
   p \<notin> skipped (handleSelectCandidate p c st) \<and>
   isComplete (handleSelectCandidate p c st) p \<and>
   entry_of (selectCandidate p c st) p = Chosen c \<and>
   obj_get (selections (selectCandidate p c st)) p = Some (Some c) \<and>
   p \<notin> skipped (selectCandidate p c st) \<and>
   isComplete (selectCandidate p c st) p \<and>
   (reachable f st' \<longrightarrow>
      \<not> (q \<in> skipped st' \<and> (\<exists>d. obj_get (selections st') q = Some (Some d))))"
proof -
  have "reachable f st' \<longrightarrow>
      \<not> (q \<in> skipped st' \<and> (\<exists>d. obj_get (selections st') q = Some (Some d)))"
    using reachable_skip_excludes_choice [of f st'] by (auto simp: skip_excludes_choice_def)
  then show ?thesis
    by (simp add: entry_of_def isComplete_def handleSelectCandidate_def selectCandidate_def
        obj_get_set)
qed

theorem select_holds_candidate_witness:
  "''Best Speaker'' \<in> skipped (toggleSkip ''Best Speaker'' sample_ballot) \<and>
   entry_of (handleSelectCandidate ''Best Speaker'' 2 (toggleSkip ''Best Speaker'' sample_ballot))
     ''Best Speaker'' = Chosen 2 \<and>
   reachable Strict (toggleSkip ''Best Speaker'' sample_ballot) \<and>
   \<not> (''Best Speaker'' \<in> skipped (toggleSkip ''Best Speaker'' sample_ballot) \<and>
      (\<exists>d. obj_get (selections (toggleSkip ''Best Speaker'' sample_ballot)) ''Best Speaker''
            = Some (Some d)))"
proof -
  have cur: "currentPosition sample_ballot = Some ''Best Speaker''"
    by (simp add: sample_ballot_eq currentPosition_def)
  have "reachable Strict (perform Strict Skip sample_ballot)"
    by (rule reachable.acted [OF reachable_sample_ballot]) (simp add: cur)
  then have r: "reachable Strict (toggleSkip ''Best Speaker'' sample_ballot)"
    by (simp add: cur)
  have s: "''Best Speaker'' \<in> skipped (toggleSkip ''Best Speaker'' sample_ballot)"
    by (simp add: sample_ballot_eq toggleSkip_def)
  show ?thesis
    using r s
      select_holds_candidate [of "''Best Speaker''" 2 "toggleSkip ''Best Speaker'' sample_ballot"
        Strict "toggleSkip ''Best Speaker'' sample_ballot" "''Best Speaker''"]
    by blast
qed

subsection \<open>Skipping\<close>

text \<open>
  C4, as the code has it. Two \<^verbatim>\<open>toggleSkip\<close> calls in a row on a position give back
  its entry when that entry was unset or skipped. A candidate chosen before the first
  call is not given back: the first call overwrites it with \<^verbatim>\<open>null\<close>, nothing keeps
  the old value, and the entry ends up unset. This holds for the \<^verbatim>\<open>toggleSkip\<close> of
  part_000 and for that of part_001.
\<close>

theorem toggleSkip_twice:
  "entry_of (toggleSkip p (toggleSkip p st)) p
     = (if entry_of st p = Skipped then Skipped else Unset) \<and>
   entry_of (toggleSkip_001 p (toggleSkip_001 p st)) p
     = (if entry_of st p = Skipped then Skipped else Unset)"
  by (auto simp: entry_of_def toggleSkip_def toggleSkip_001_def obj_get_set
      split: option.splits)

theorem toggleSkip_twice_witness:
  "entry_of sample_ballot ''Best Dish'' = Unset \<and>
   entry_of (toggleSkip ''Best Dish'' (toggleSkip ''Best Dish'' sample_ballot)) ''Best Dish''
     = Unset \<and>
   entry_of (toggleSkip_001 ''Best Dish'' (toggleSkip_001 ''Best Dish'' sample_ballot))
     ''Best Dish'' = Unset"
proof -
  have "entry_of sample_ballot ''Best Dish'' = Unset"
    by (simp add: sample_ballot_eq entry_of_def obj_get_def)
  then show ?thesis
    using toggleSkip_twice [of "''Best Dish''" sample_ballot] by simp
qed

text \<open>
  The claim as stated fails: with Ada (candidate 1) chosen for Best Speaker, two skips
  leave the position unset.
\<close>

theorem toggleSkip_twice_loses_candidate:
  "entry_of (handleSelectCandidate ''Best Speaker'' 1 sample_ballot) ''Best Speaker'' = Chosen 1 \<and>
   entry_of (toggleSkip ''Best Speaker'' (toggleSkip ''Best Speaker''
       (handleSelectCandidate ''Best Speaker'' 1 sample_ballot))) ''Best Speaker'' = Unset \<and>
   entry_of (toggleSkip_001 ''Best Speaker'' (toggleSkip_001 ''Best Speaker''
       (selectCandidate ''Best Speaker'' 1 sample_ballot))) ''Best Speaker'' = Unset"
  by (simp add: sample_ballot_eq entry_of_def toggleSkip_def toggleSkip_001_def
      handleSelectCandidate_def selectCandidate_def obj_get_set)

subsection \<open>Selecting a position the ballot does not have\<close>

text \<open>
  C8, as the code has it. \<^verbatim>\<open>handleSelectCandidate\<close> checks nothing: called with a
  position that is not a key of \<^verbatim>\<open>selections\<close> it creates the property, last in the
  object and holding the candidate, and returns normally; the positions are unchanged.
  (The page only ever calls it with \<^verbatim>\<open>positions[currentPage]\<close>.)
\<close>

theorem select_unknown_position_creates_entry:
  assumes "p \<notin> set (map fst (selections st))"
  shows "selections (handleSelectCandidate p c st) = selections st @ [(p, Some c)] \<and>
         positions (handleSelectCandidate p c st) = positions st \<and>
         entry_of (handleSelectCandidate p c st) p = Chosen c"
proof -
  have "selections (handleSelectCandidate p c st) = selections st @ [(p, Some c)]"
    using assms by (simp add: handleSelectCandidate_def obj_set_new)
  moreover have "entry_of (handleSelectCandidate p c st) p = Chosen c"
    by (simp add: handleSelectCandidate_def entry_of_def obj_get_set)
  ultimately show ?thesis
    by (simp add: handleSelectCandidate_def)
qed

theorem select_unknown_position_creates_entry_witness:
  "''Best Drink'' \<notin> set (map fst (selections sample_ballot)) \<and>
   selections (handleSelectCandidate ''Best Drink'' 5 sample_ballot)
     = [(''Best Speaker'', None), (''Best Dish'', None), (''Best Drink'', Some 5)] \<and>
   positions (handleSelectCandidate ''Best Drink'' 5 sample_ballot)
     = [''Best Speaker'', ''Best Dish'']"
proof -
  have new: "''Best Drink'' \<notin> set (map fst (selections sample_ballot))"
    by (simp add: sample_ballot_eq)
  show ?thesis
    using new select_unknown_position_creates_entry [OF new, of 5]
    by (simp add: sample_ballot_eq)
qed

theorem select_unknown_position_no_failure:
  "''Best Drink'' \<notin> set (positions sample_ballot) \<and>
   obj_get (selections sample_ballot) ''Best Drink'' = None \<and>
   obj_get (selections (handleSelectCandidate ''Best Drink'' 5 sample_ballot)) ''Best Drink''
     = Some (Some 5)"
  by (simp add: sample_ballot_eq handleSelectCandidate_def obj_set_def obj_get_def)

subsection \<open>Advancing past a position\<close>

text \<open>
  With \<^verbatim>\<open>canProceed\<close> (part_001; part_002 and part_004 have the same test), a question
  page whose position has a name and a property in \<^verbatim>\<open>selections\<close> blocks the advance
  exactly when the entry is unset.
\<close>

lemma canProceed_iff_addressed:
  assumes "currentPosition st = Some p" and "p \<noteq> []" and "p \<in> set (map fst (selections st))"
  shows "canProceed st \<longleftrightarrow> entry_of st p \<noteq> Unset"
proof -
  obtain v where "obj_get (selections st) p = Some v"
    using assms(3)
    by (cases "map_of (selections st) p") (auto simp: obj_get_def map_of_eq_None_iff)
  then show ?thesis
    using assms(1,2) by (cases v) (auto simp: canProceed_def isComplete_def entry_of_def)
qed

text \<open>
  A position whose name is the empty string is falsy in the \<^verbatim>\<open>?:\<close> test, so its
  page never blocks the advance.
\<close>

lemma canProceed_empty_name:
  "currentPosition st = Some [] \<Longrightarrow> canProceed st \<and> isPositionSelected st"
  by (simp add: canProceed_def isPositionSelected_def)

text \<open>
  C5 on part_000. \<^verbatim>\<open>isPositionSelected\<close> there reads \<^verbatim>\<open>selections\<close> alone: on the
  first question page, after the voter has skipped the position, the entry is skipped
  and yet the advance is blocked, where \<^verbatim>\<open>canProceed\<close> permits it.
\<close>

theorem isPositionSelected_ignores_skip:
  "reachable Strict (toggleSkip ''Best Speaker'' sample_ballot) \<and>
   currentPosition (toggleSkip ''Best Speaker'' sample_ballot) = Some ''Best Speaker'' \<and>
   entry_of (toggleSkip ''Best Speaker'' sample_ballot) ''Best Speaker'' = Skipped \<and>
   \<not> isPositionSelected (toggleSkip ''Best Speaker'' sample_ballot) \<and>
   canProceed (toggleSkip ''Best Speaker'' sample_ballot)"
proof -
  have cur: "currentPosition sample_ballot = Some ''Best Speaker''"
    by (simp add: sample_ballot_eq currentPosition_def)
  have "reachable Strict (perform Strict Skip sample_ballot)"
    by (rule reachable.acted [OF reachable_sample_ballot]) (simp add: cur)
  then have "reachable Strict (toggleSkip ''Best Speaker'' sample_ballot)"
    by (simp add: cur)
  then show ?thesis
    by (simp add: sample_ballot_eq toggleSkip_def currentPosition_def entry_of_def
        isPositionSelected_def canProceed_def isComplete_def obj_get_set)
qed

subsection \<open>The vote batch\<close>

lemma set_own_properties: "set (own_properties s) = set s"
proof -
  have "set_mset (mset (own_properties s)) = set_mset (mset s)"
    by (simp only: mset_own_properties)
  then show ?thesis by simp
qed

lemma own_properties_plain:
  assumes "\<And>k. k \<in> set (map fst s) \<Longrightarrow> array_index k = None"
  shows "own_properties s = s"
proof -
  have "filter (\<lambda>kv. array_index (fst kv) \<noteq> None) s = []"
    using assms by (auto simp: filter_empty_conv)
  moreover have "filter (\<lambda>kv. array_index (fst kv) = None) s = s"
    using assms by (auto simp: filter_id_conv)
  ultimately show ?thesis by (simp add: own_properties_def)
qed

lemma length_filter_eq_iff: "length (filter P xs) = length xs \<longleftrightarrow> (\<forall>x\<in>set xs. P x)"
proof
  assume eq: "length (filter P xs) = length xs"
  show "\<forall>x\<in>set xs. P x"
  proof (rule ccontr)
    assume "\<not> (\<forall>x\<in>set xs. P x)"
    then obtain x where "x \<in> set xs" "\<not> P x" by blast
    then have "length (filter P xs) < length xs" by (rule length_filter_less)
    with eq show False by simp
  qed
next
  assume "\<forall>x\<in>set xs. P x"
  then show "length (filter P xs) = length xs" by simp
qed

lemma property_of_key:
  assumes "distinct (map fst s)"
  shows "(k, v) \<in> set s \<longleftrightarrow> obj_get s k = Some v"
  using assms by (simp add: obj_get_def)

lemma keys_of_complete:
  assumes "keys_within_positions st"
    and "\<forall>p\<in>set (positions st). \<exists>c. obj_get (selections st) p = Some (Some c)"
  shows "set (map fst (selections st)) = set (positions st)"
proof -
  from assms(1) have dist: "distinct (map fst (selections st))"
    and sub: "set (map fst (selections st)) \<subseteq> set (positions st)"
    by (simp_all add: keys_within_positions_def)
  have "set (positions st) \<subseteq> set (map fst (selections st))"
  proof
    fix p assume "p \<in> set (positions st)"
    then obtain c where "obj_get (selections st) p = Some (Some c)"
      using assms(2) by blast
    then have "(p, Some c) \<in> set (selections st)"
      using property_of_key [OF dist] by simp
    then show "p \<in> set (map fst (selections st))" by force
  qed
  with sub show ?thesis by blast
qed

lemma values_within_positions:
  assumes "keys_within_positions st" and "kv \<in> set (selections st)"
  shows "fst kv \<in> set (positions st) \<and> obj_get (selections st) (fst kv) = Some (snd kv)"
proof -
  from assms(1) have dist: "distinct (map fst (selections st))"
    and sub: "set (map fst (selections st)) \<subseteq> set (positions st)"
    by (simp_all add: keys_within_positions_def)
  from assms(2) have "fst kv \<in> set (map fst (selections st))" by simp
  with sub have "fst kv \<in> set (positions st)" by blast
  moreover have "obj_get (selections st) (fst kv) = Some (snd kv)"
    using property_of_key [OF dist, of "fst kv" "snd kv"] assms(2) by simp
  ultimately show ?thesis by simp
qed

lemma value_of_position:
  assumes "keys_within_positions st" and "kv \<in> set (selections st)"
    and "\<And>p. p \<in> set (positions st) \<Longrightarrow> obj_get (selections st) p = Some (Some (choice p))"
  shows "snd kv = Some (choice (fst kv))"
proof -
  from values_within_positions [OF assms(1,2)]
  have k: "fst kv \<in> set (positions st)"
    and g: "obj_get (selections st) (fst kv) = Some (snd kv)"
    by simp_all
  from assms(3) [OF k] g show ?thesis by simp
qed

lemma value_of_complete:
  assumes "keys_within_positions st" and "kv \<in> set (selections st)"
    and "\<forall>p\<in>set (positions st). \<exists>c. obj_get (selections st) p = Some (Some c)"
  shows "snd kv \<noteq> None"
proof -
  from values_within_positions [OF assms(1,2)]
  have k: "fst kv \<in> set (positions st)"
    and g: "obj_get (selections st) (fst kv) = Some (snd kv)"
    by simp_all
  from assms(3) k obtain c where "obj_get (selections st) (fst kv) = Some (Some c)"
    by blast
  with g have "snd kv = Some c" by simp
  then show ?thesis by simp
qed

lemma length_filledPositions:
  assumes "keys_within_positions st"
  shows "length (filledPositions st) = length (positions st) \<longleftrightarrow>
         (\<forall>p\<in>set (positions st). \<exists>c. obj_get (selections st) p = Some (Some c))"
proof -
  from assms have dist: "distinct (map fst (selections st))"
    and sub: "set (map fst (selections st)) \<subseteq> set (positions st)"
    and distp: "distinct (positions st)"
    by (simp_all add: keys_within_positions_def)
  have le1: "length (filledPositions st) \<le> length (selections st)"
    using length_filter_le [of "\<lambda>val. val \<noteq> None" "Object_values (selections st)"]
    by (simp add: filledPositions_def length_Object_values)
  have ksz: "length (selections st) = card (set (map fst (selections st)))"
    using distinct_card [OF dist] by simp
  have psz: "length (positions st) = card (set (positions st))"
    using distinct_card [OF distp] by simp
  have le2: "length (selections st) \<le> length (positions st)"
    using card_mono [OF _ sub] ksz psz by simp
  show ?thesis
  proof
    assume eq: "length (filledPositions st) = length (positions st)"
    with le1 le2 have full: "length (filledPositions st) = length (Object_values (selections st))"
      and same: "length (selections st) = length (positions st)"
      by (simp_all add: length_Object_values)
    from full have vals: "\<forall>v\<in>set (Object_values (selections st)). v \<noteq> None"
      by (simp add: filledPositions_def length_filter_eq_iff)
    from same have keys: "set (map fst (selections st)) = set (positions st)"
      using card_subset_eq [OF _ sub] ksz psz by simp
    show "\<forall>p\<in>set (positions st). \<exists>c. obj_get (selections st) p = Some (Some c)"
    proof
      fix p assume "p \<in> set (positions st)"
      with keys have "p \<in> set (map fst (selections st))" by simp
      then obtain v where pv: "(p, v) \<in> set (selections st)" by auto
      then have "v \<in> set (Object_values (selections st))"
        by (force simp: set_Object_values)
      with vals have "v \<noteq> None" by blast
      moreover from pv have "obj_get (selections st) p = Some v"
        using property_of_key [OF dist] by simp
      ultimately show "\<exists>c. obj_get (selections st) p = Some (Some c)" by auto
    qed
  next
    assume all: "\<forall>p\<in>set (positions st). \<exists>c. obj_get (selections st) p = Some (Some c)"
    have "set (map fst (selections st)) = set (positions st)"
      using assms all by (rule keys_of_complete)
    then have same: "length (selections st) = length (positions st)"
      using ksz psz by simp
    have "\<forall>v\<in>set (Object_values (selections st)). v \<noteq> None"
    proof
      fix v assume "v \<in> set (Object_values (selections st))"
      then obtain kv where kv: "kv \<in> set (selections st)" and v: "v = snd kv"
        by (auto simp: set_Object_values)
      from value_of_complete [OF assms kv all] v show "v \<noteq> None" by simp
    qed
    then have "length (filledPositions st) = length (Object_values (selections st))"
      by (simp add: filledPositions_def)
    with same show "length (filledPositions st) = length (positions st)"
      by (simp add: length_Object_values)
  qed
qed

lemma filledPositions_complete:
  assumes "keys_within_positions st"
    and "\<forall>p\<in>set (positions st). \<exists>c. obj_get (selections st) p = Some (Some c)"
  shows "filledPositions st = Object_values (selections st)"
proof -
  have "\<forall>v\<in>set (Object_values (selections st)). v \<noteq> None"
  proof
    fix v assume "v \<in> set (Object_values (selections st))"
    then obtain kv where kv: "kv \<in> set (selections st)" and v: "v = snd kv"
      by (auto simp: set_Object_values)
    from value_of_complete [OF assms(1) kv assms(2)] v show "v \<noteq> None" by simp
  qed
  then show ?thesis by (simp add: filledPositions_def)
qed

lemma mset_votes_of:
  assumes wf: "keys_within_positions st"
    and choice: "\<And>p. p \<in> set (positions st) \<Longrightarrow> obj_get (selections st) p = Some (Some (choice p))"
  shows "mset (votes_of voter st)
         = image_mset (\<lambda>p. \<lparr>voter_id = Voter_id voter, candidate_id = choice p\<rparr>)
             (mset (positions st))"
proof -
  from wf have dist: "distinct (map fst (selections st))"
    and distp: "distinct (positions st)"
    by (simp_all add: keys_within_positions_def)
  have all: "\<forall>p\<in>set (positions st). \<exists>c. obj_get (selections st) p = Some (Some c)"
    using choice by blast
  have keys: "mset (map fst (selections st)) = mset (positions st)"
    using keys_of_complete [OF wf all] dist distp
    by (simp only: set_eq_iff_mset_eq_distinct)
  have "mset (votes_of voter st)
        = image_mset (\<lambda>v. \<lparr>voter_id = Voter_id voter, candidate_id = the v\<rparr>)
            (mset (Object_values (selections st)))"
    by (simp add: votes_of_def filledPositions_complete [OF wf all])
  also have "\<dots> = image_mset (\<lambda>kv. \<lparr>voter_id = Voter_id voter, candidate_id = the (snd kv)\<rparr>)
                     (mset (selections st))"
    by (simp add: mset_Object_values multiset.map_comp comp_def)
  also have "\<dots> = image_mset (\<lambda>kv. \<lparr>voter_id = Voter_id voter, candidate_id = choice (fst kv)\<rparr>)
                     (mset (selections st))"
  proof (rule image_mset_cong)
    fix kv assume "kv \<in># mset (selections st)"
    then have kv: "kv \<in> set (selections st)" by simp
    have "snd kv = Some (choice (fst kv))"
      using wf kv choice by (rule value_of_position)
    then show "\<lparr>voter_id = Voter_id voter, candidate_id = the (snd kv)\<rparr>
             = \<lparr>voter_id = Voter_id voter, candidate_id = choice (fst kv)\<rparr>"
      by simp
  qed
  also have "\<dots> = image_mset (\<lambda>p. \<lparr>voter_id = Voter_id voter, candidate_id = choice p\<rparr>)
                     (mset (map fst (selections st)))"
    by (simp add: multiset.map_comp comp_def)
  finally show ?thesis by (simp only: keys)
qed

lemma votes_of_001_eq: "votes_of_001 voter st = votes_of voter st"
  by (simp add: votes_of_001_def votes_of_def filledPositions_def Object_values_def
      Object_entries_def filter_map comp_def case_prod_unfold)

lemma votes_of_001_none:
  assumes "\<forall>kv\<in>set (selections st). snd kv = None"
  shows "votes_of_001 voter st = []"
  using assms
  by (simp add: votes_of_001_def Object_entries_def set_own_properties filter_empty_conv
      case_prod_unfold)

subsection \<open>The sample ballot, filled in\<close>

lemma complete_ballot_eq:
  "complete_ballot =
     \<lparr>candidates = sample_candidates, positions = [''Best Speaker'', ''Best Dish''],
      selections = [(''Best Speaker'', Some 1), (''Best Dish'', Some 3)], currentPage = 0,
      isSubmitting = False, error = None, skipped = {}, showSummary = False,
      submitTime = None\<rparr>"
  by (simp add: complete_ballot_def sample_ballot_eq handleSelectCandidate_def obj_set_def)

lemma own_properties_sample:
  "own_properties [(''Best Speaker'', a), (''Best Dish'', b)]
     = [(''Best Speaker'', a), (''Best Dish'', b)]"
  by (rule own_properties_plain) (auto simp: array_index_Best_Speaker array_index_Best_Dish)

lemma votes_of_complete_ballot:
  "votes_of sample_voter complete_ballot
     = [\<lparr>voter_id = 42, candidate_id = 1\<rparr>, \<lparr>voter_id = 42, candidate_id = 3\<rparr>]"
  by (simp add: votes_of_def filledPositions_def Object_values_def complete_ballot_eq
      own_properties_sample sample_voter_def)

lemma filledPositions_sample_ballot: "filledPositions sample_ballot = []"
  by (simp add: filledPositions_def Object_values_def sample_ballot_eq own_properties_sample)

lemma keys_within_positions_complete_ballot: "keys_within_positions complete_ballot"
  by (simp add: keys_within_positions_def complete_ballot_eq)

lemma proto_complete_eq:
  "proto_complete =
     \<lparr>candidates = proto_candidates, positions = [''__proto__'', ''B''],
      selections = [(''B'', Some 2), (''__proto__'', Some 1)], currentPage = 0,
      isSubmitting = False, error = None, skipped = {}, showSummary = False,
      submitTime = None\<rparr>"
  by (simp add: proto_complete_def proto_ballot_eq handleSelectCandidate_def obj_set_def)

lemma keys_within_positions_proto_complete: "keys_within_positions proto_complete"
  by (auto simp: keys_within_positions_def proto_complete_eq)

lemma array_index_proto: "array_index ''__proto__'' = None"
  by (simp add: array_index_def is_digit_def)

lemma array_index_B: "array_index ''B'' = None"
  by (simp add: array_index_def is_digit_def)

lemma own_properties_proto:
  "own_properties [(''B'', a), (''__proto__'', b)] = [(''B'', a), (''__proto__'', b)]"
  by (rule own_properties_plain) (auto simp: array_index_proto array_index_B)

lemma own_properties_B: "own_properties [(''B'', a)] = [(''B'', a)]"
  by (rule own_properties_plain) (auto simp: array_index_B)

lemma votes_of_proto_complete:
  "votes_of sample_voter proto_complete
     = [\<lparr>voter_id = 42, candidate_id = 2\<rparr>, \<lparr>voter_id = 42, candidate_id = 1\<rparr>]"
  by (simp add: votes_of_def filledPositions_def Object_values_def proto_complete_eq
      own_properties_proto sample_voter_def)

subsection \<open>Submitting an incomplete ballot\<close>

text \<open>
  C1, as the code has it. In every state of a session (there the own keys of
  \<^verbatim>\<open>selections\<close> are distinct positions of the ballot, by
  \<open>reachable_keys_within_positions\<close>), if some position does not hold a candidate then
  \<^verbatim>\<open>handleSubmit\<close> sends no write to the store, whatever the deadline and the clock.
  How it fails follows the order of its tests: with the error of the deadline query when
  that query failed, with \<open>DeadlineExpired\<close> when the deadline has passed, and with
  \<open>IncompleteBallot\<close> otherwise.
\<close>

theorem incomplete_ballot_writes_nothing:
  assumes "keys_within_positions st"
    and "p \<in> set (positions st)"
    and "\<not> (\<exists>c. obj_get (selections st) p = Some (Some c))"
  shows "fst (snd (handleSubmit voter env st)) = [] \<and>
         fst (handleSubmit voter env st)
           = (case resp_error (deadline_query env) of
                Some msg \<Rightarrow> SubmissionError msg
              | None \<Rightarrow> if votingHasEnded env then DeadlineExpired else IncompleteBallot)"
proof -
  have "length (filledPositions st) \<noteq> length (positions st)"
    using assms length_filledPositions [OF assms(1)] by blast
  then show ?thesis
    by (simp add: handleSubmit_def Let_def split: option.splits)
qed

text \<open>
  The witness is the ballot with a position named \<^verbatim>\<open>__proto__\<close>, a candidate chosen
  for the other position only: \<^verbatim>\<open>selections\<close> is \<^verbatim>\<open>{B: 2}\<close>.
\<close>

theorem incomplete_ballot_writes_nothing_witness:
  "reachable Strict (handleSelectCandidate ''B'' 2 (handleNext proto_ballot)) \<and>
   positions (handleSelectCandidate ''B'' 2 (handleNext proto_ballot)) = [''__proto__'', ''B''] \<and>
   selections (handleSelectCandidate ''B'' 2 (handleNext proto_ballot)) = [(''B'', Some 2)] \<and>
   fst (snd (handleSubmit sample_voter (accepting_store 50 [Some 100])
          (handleSelectCandidate ''B'' 2 (handleNext proto_ballot)))) = [] \<and>
   fst (handleSubmit sample_voter (accepting_store 50 [Some 100])
          (handleSelectCandidate ''B'' 2 (handleNext proto_ballot))) = IncompleteBallot"
proof -
  define st where "st = handleSelectCandidate ''B'' 2 (handleNext proto_ballot)"
  have r0: "reachable Strict proto_ballot"
    unfolding proto_ballot_def by (rule reachable.loaded)
  have "reachable Strict (perform Strict Next proto_ballot)"
    by (rule reachable.acted [OF r0]) simp
  then have r1: "reachable Strict (handleNext proto_ballot)"
    by simp
  have cur: "currentPosition (handleNext proto_ballot) = Some ''B''"
    by (simp add: proto_ballot_eq handleNext_def currentPosition_def)
  have "reachable Strict (perform Strict (Select 2) (handleNext proto_ballot))"
    by (rule reachable.acted [OF r1]) (simp add: cur)
  then have r: "reachable Strict st"
    by (simp add: cur st_def)
  have k: "keys_within_positions st"
    using r by (rule reachable_keys_within_positions)
  have ps: "positions st = [''__proto__'', ''B'']"
    by (simp add: st_def proto_ballot_eq handleNext_def handleSelectCandidate_def)
  have sel: "selections st = [(''B'', Some 2)]"
    by (simp add: st_def proto_ballot_eq handleNext_def handleSelectCandidate_def obj_set_def)
  have p: "''__proto__'' \<in> set (positions st)"
    by (simp add: ps)
  have n: "\<not> (\<exists>c. obj_get (selections st) ''__proto__'' = Some (Some c))"
    by (simp add: sel obj_get_def)
  have e: "\<not> votingHasEnded (accepting_store 50 [Some 100])"
    by (simp add: votingHasEnded_def accepting_store_def deadline_passed_def)
  have q: "resp_error (deadline_query (accepting_store 50 [Some 100])) = None"
    by (simp add: accepting_store_def)
  show ?thesis
    using incomplete_ballot_writes_nothing [OF k p n, of sample_voter
        "accepting_store 50 [Some 100]"] r ps sel e
    by (simp add: q flip: st_def)
qed

text \<open>
  The claim as stated fails. With both positions unset and the deadline passed, the
  strict \<^verbatim>\<open>handleSubmit\<close> fails with \<open>DeadlineExpired\<close>, not with
  \<open>IncompleteBallot\<close>; and the permissive \<^verbatim>\<open>submitVote\<close> has no completeness test:
  before the deadline it marks the voter and succeeds.
\<close>

theorem incomplete_ballot_after_deadline:
  "reachable Strict sample_ballot \<and>
   obj_get (selections sample_ballot) ''Best Dish'' = Some None \<and>
   fst (handleSubmit sample_voter (accepting_store 200 [Some 100]) sample_ballot)
     = DeadlineExpired \<and>
   fst (handleSubmit sample_voter (accepting_store 200 [Some 100]) sample_ballot)
     \<noteq> IncompleteBallot \<and>
   submitVote sample_voter (accepting_store 50 [Some 100]) sample_ballot
     = (Submitted, [MarkVoted 42], sample_ballot)"
  by (simp add: reachable_sample_ballot handleSubmit_def submitVote_def
      votingHasEnded_def votingHasEnded_001_def single_def deadline_passed_def
      accepting_store_def Let_def votes_of_001_eq votes_of_def filledPositions_sample_ballot
      sample_voter_def)
    (simp add: sample_ballot_eq obj_get_def)

text \<open>
  Outside the states of a session the hypothesis on the keys cannot be dropped:
  \<^verbatim>\<open>handleSubmit\<close> counts the properties of \<^verbatim>\<open>selections\<close> that hold a number.
  After a call of \<^verbatim>\<open>handleSelectCandidate\<close> with a position the ballot does not have
  (which the page never makes), the count is reached although Best Dish is unset.
\<close>

lemma handleSubmit_counts_properties:
  "obj_get (selections (handleSelectCandidate ''Best Drink'' 5
       (handleSelectCandidate ''Best Speaker'' 1 sample_ballot))) ''Best Dish'' = Some None \<and>
   fst (snd (handleSubmit sample_voter (accepting_store 50 [Some 100])
       (handleSelectCandidate ''Best Drink'' 5
         (handleSelectCandidate ''Best Speaker'' 1 sample_ballot))))
     = [InsertVotes [\<lparr>voter_id = 42, candidate_id = 1\<rparr>, \<lparr>voter_id = 42, candidate_id = 5\<rparr>],
        MarkVoted 42]"
proof -
  have st: "handleSelectCandidate ''Best Drink'' 5
              (handleSelectCandidate ''Best Speaker'' 1 sample_ballot)
            = sample_ballot\<lparr>selections :=
                [(''Best Speaker'', Some 1), (''Best Dish'', None), (''Best Drink'', Some 5)]\<rparr>"
    by (simp add: sample_ballot_eq handleSelectCandidate_def obj_set_def)
  have "array_index ''Best Drink'' = None"
    by (simp add: array_index_def is_digit_def)
  then have "own_properties
               [(''Best Speaker'', Some 1), (''Best Dish'', None), (''Best Drink'', Some 5)]
             = [(''Best Speaker'', Some 1), (''Best Dish'', None), (''Best Drink'', Some 5)]"
    by (intro own_properties_plain)
      (auto simp: array_index_Best_Speaker array_index_Best_Dish)
  then have f: "filledPositions (sample_ballot\<lparr>selections :=
                [(''Best Speaker'', Some 1), (''Best Dish'', None), (''Best Drink'', Some 5)]\<rparr>)
              = [Some 1, Some 5]"
    by (simp add: filledPositions_def Object_values_def)
  show ?thesis
    unfolding st
    by (simp add: handleSubmit_def votingHasEnded_def deadline_passed_def accepting_store_def
        Let_def votes_of_def f sample_voter_def)
      (simp add: sample_ballot_eq obj_get_def)
qed

subsection \<open>Submitting after the deadline\<close>

text \<open>
  C2. Whatever the state, complete ballot or not: when the deadline query answers a
  timestamp earlier than the clock, \<^verbatim>\<open>handleSubmit\<close> fails with \<open>DeadlineExpired\<close> and
  sends no write to the store. So does \<^verbatim>\<open>submitVote\<close>, whose \<^verbatim>\<open>.single()\<close> query
  needs the timestamp to be the only row.
\<close>
theorem expired_deadline_writes_nothing:
  assumes "resp_error (deadline_query env) = None"
    and "resp_data (deadline_query env) = Some (Some deadline # rows)"
    and "deadline < clock env"
  shows "fst (handleSubmit voter env st) = DeadlineExpired \<and>
         fst (snd (handleSubmit voter env st)) = [] \<and>
         (rows = [] \<longrightarrow>
            fst (submitVote voter env st) = DeadlineExpired \<and>
            fst (snd (submitVote voter env st)) = [])"
  using assms
  by (simp add: handleSubmit_def submitVote_def votingHasEnded_def votingHasEnded_001_def
      single_def deadline_passed_def Let_def)

theorem expired_deadline_writes_nothing_witness:
  "(100 :: int) < clock (accepting_store 200 [Some 100]) \<and>
   handleSubmit sample_voter (accepting_store 200 [Some 100]) complete_ballot
     = (DeadlineExpired, [], complete_ballot) \<and>
   submitVote sample_voter (accepting_store 200 [Some 100]) complete_ballot
     = (DeadlineExpired, [], complete_ballot)"
proof -
  have a: "resp_error (deadline_query (accepting_store 200 [Some 100])) = None"
    by (simp add: accepting_store_def)
  have b: "resp_data (deadline_query (accepting_store 200 [Some 100])) = Some (Some 100 # [])"
    by (simp add: accepting_store_def)
  have c: "(100 :: int) < clock (accepting_store 200 [Some 100])"
    by (simp add: accepting_store_def)
  have s1: "snd (snd (handleSubmit sample_voter (accepting_store 200 [Some 100]) complete_ballot))
              = complete_ballot"
    by (simp add: handleSubmit_def votingHasEnded_def deadline_passed_def accepting_store_def
        Let_def complete_ballot_eq)
  have s2: "snd (snd (submitVote sample_voter (accepting_store 200 [Some 100]) complete_ballot))
              = complete_ballot"
    by (simp add: submitVote_frame complete_ballot_eq)
  show ?thesis
    using expired_deadline_writes_nothing [OF a b c, of sample_voter complete_ballot] c s1 s2
    by (simp add: prod_eq_iff)
qed


subsection \<open>Submitting a complete ballot\<close>

text \<open>
  C3. In every state of a session (the own keys of \<^verbatim>\<open>selections\<close> are distinct
  positions of the ballot, by \<open>reachable_keys_within_positions\<close>), with every position
  holding a candidate, the deadline query answered and the deadline not passed,
  \<^verbatim>\<open>handleSubmit\<close> first sends one insert of the whole batch, which holds exactly one
  record \<open>(voter_id, candidate_id)\<close> per position, made of that position's candidate; the
  update of \<^verbatim>\<open>has_voted\<close> is a second write, sent after the insert and only when the
  store accepted the insert.
\<close>

theorem complete_ballot_insert_then_mark:
  assumes "keys_within_positions st"
    and "\<And>p. p \<in> set (positions st) \<Longrightarrow> obj_get (selections st) p = Some (Some (choice p))"
    and "resp_error (deadline_query env) = None"
    and "\<not> votingHasEnded env"
  shows "fst (snd (handleSubmit voter env st))
           = InsertVotes (votes_of voter st)
             # (if insert_error env (votes_of voter st) = None
                then [MarkVoted (Voter_id voter)] else []) \<and>
         mset (votes_of voter st)
           = image_mset (\<lambda>p. \<lparr>voter_id = Voter_id voter, candidate_id = choice p\<rparr>)
               (mset (positions st)) \<and>
         length (votes_of voter st) = length (positions st)"
proof -
  have all: "\<forall>p\<in>set (positions st). \<exists>c. obj_get (selections st) p = Some (Some c)"
    using assms(2) by blast
  have len: "length (filledPositions st) = length (positions st)"
    using length_filledPositions [OF assms(1)] all by blast
  have writes: "fst (snd (handleSubmit voter env st))
           = InsertVotes (votes_of voter st)
             # (if insert_error env (votes_of voter st) = None
                then [MarkVoted (Voter_id voter)] else [])"
    using assms(3,4) len by (simp add: handleSubmit_def Let_def split: option.splits)
  have batch: "mset (votes_of voter st)
           = image_mset (\<lambda>p. \<lparr>voter_id = Voter_id voter, candidate_id = choice p\<rparr>)
               (mset (positions st))"
    using assms(1,2) by (rule mset_votes_of)
  have "length (votes_of voter st) = length (positions st)"
    using len by (simp add: votes_of_def)
  with writes batch show ?thesis by simp
qed

text \<open>
  The witness is the ballot with a position named \<^verbatim>\<open>__proto__\<close>, both positions
  chosen: \<^verbatim>\<open>selections\<close> is \<^verbatim>\<open>{B: 2, __proto__: 1}\<close> and the positions are
  \<^verbatim>\<open>['__proto__', 'B']\<close>.
\<close>

theorem complete_ballot_insert_then_mark_witness:
  "keys_within_positions proto_complete \<and>
   positions proto_complete = [''__proto__'', ''B''] \<and>
   selections proto_complete = [(''B'', Some 2), (''__proto__'', Some 1)] \<and>
   \<not> votingHasEnded (accepting_store 50 [Some 100]) \<and>
   fst (snd (handleSubmit sample_voter (accepting_store 50 [Some 100]) proto_complete))
     = [InsertVotes [\<lparr>voter_id = 42, candidate_id = 2\<rparr>, \<lparr>voter_id = 42, candidate_id = 1\<rparr>],
        MarkVoted 42]"
proof -
  define choice where "choice = (\<lambda>p. if p = ''B'' then (2::int) else 1)"
  have c: "\<And>p. p \<in> set (positions proto_complete) \<Longrightarrow>
             obj_get (selections proto_complete) p = Some (Some (choice p))"
    by (auto simp: proto_complete_eq obj_get_def choice_def)
  have a: "resp_error (deadline_query (accepting_store 50 [Some 100])) = None"
    by (simp add: accepting_store_def)
  have e: "\<not> votingHasEnded (accepting_store 50 [Some 100])"
    by (simp add: votingHasEnded_def accepting_store_def deadline_passed_def)
  have i: "insert_error (accepting_store 50 [Some 100]) vs = None" for vs
    by (simp add: accepting_store_def)
  have v: "Voter_id sample_voter = 42"
    by (simp add: sample_voter_def)
  have ps: "positions proto_complete = [''__proto__'', ''B'']"
    and sel: "selections proto_complete = [(''B'', Some 2), (''__proto__'', Some 1)]"
    by (simp_all add: proto_complete_eq)
  show ?thesis
    using complete_ballot_insert_then_mark [OF keys_within_positions_proto_complete c a e,
        of sample_voter] e keys_within_positions_proto_complete ps sel
    by (simp add: votes_of_proto_complete i v)
qed

text \<open>
  When the own keys are the positions in page order (no position is named
  \<^verbatim>\<open>__proto__\<close>) and no position is named by an array index, the batch is in page
  order.
\<close>

lemma votes_of_in_page_order:
  assumes "map fst (selections st) = positions st" and "distinct (positions st)"
    and "\<And>p. p \<in> set (positions st) \<Longrightarrow> obj_get (selections st) p = Some (Some (choice p))"
    and "\<And>p. p \<in> set (positions st) \<Longrightarrow> array_index p = None"
  shows "votes_of voter st
         = map (\<lambda>p. \<lparr>voter_id = Voter_id voter, candidate_id = choice p\<rparr>) (positions st)"
proof -
  have wf: "keys_within_positions st"
    using assms(1,2) by (simp add: keys_within_positions_def)
  have all: "\<forall>p\<in>set (positions st). \<exists>c. obj_get (selections st) p = Some (Some c)"
    using assms(3) by blast
  have plain: "own_properties (selections st) = selections st"
    using assms(4) assms(1) by (intro own_properties_plain) simp
  have "votes_of voter st
        = map (\<lambda>kv. \<lparr>voter_id = Voter_id voter, candidate_id = the (snd kv)\<rparr>) (selections st)"
    by (simp add: votes_of_def filledPositions_complete [OF wf all] Object_values_def
        plain comp_def)
  also have "\<dots> = map (\<lambda>kv. \<lparr>voter_id = Voter_id voter, candidate_id = choice (fst kv)\<rparr>)
                     (selections st)"
  proof (rule map_cong [OF refl])
    fix kv assume kv: "kv \<in> set (selections st)"
    have "snd kv = Some (choice (fst kv))"
      using wf kv assms(3) by (rule value_of_position)
    then show "\<lparr>voter_id = Voter_id voter, candidate_id = the (snd kv)\<rparr>
             = \<lparr>voter_id = Voter_id voter, candidate_id = choice (fst kv)\<rparr>"
      by simp
  qed
  also have "\<dots> = map (\<lambda>p. \<lparr>voter_id = Voter_id voter, candidate_id = choice p\<rparr>)
                     (map fst (selections st))"
    by (simp add: comp_def)
  finally show ?thesis by (simp only: assms(1))
qed

subsection \<open>After a failed submission\<close>

lemma filledPositions_flags:
  "filledPositions (st\<lparr>isSubmitting := False, error := None\<rparr>) = filledPositions st"
  by (simp add: filledPositions_def)

lemma votes_of_flags:
  "votes_of voter (st\<lparr>isSubmitting := False, error := None\<rparr>) = votes_of voter st"
  by (simp add: votes_of_def filledPositions_flags)

lemma handleSubmit_again:
  "handleSubmit voter env (st\<lparr>isSubmitting := False, error := None\<rparr>) = handleSubmit voter env st"
  by (simp add: handleSubmit_def Let_def filledPositions_flags votes_of_flags
      split: option.splits)

lemma handleSubmit_004_again:
  "handleSubmit_004 voter env later (st\<lparr>isSubmitting := False, error := None\<rparr>)
     = handleSubmit_004 voter env later st"
  by (simp add: handleSubmit_004_def Let_def filledPositions_flags votes_of_flags
      split: option.splits)

text \<open>
  C7, as the code has it. A submission that fails with \<open>DeadlineExpired\<close> sends no
  write and leaves the session as it was, the form still drawn (\<^verbatim>\<open>isSubmitting\<close> is
  false again, nothing records the failure). A later submission fetches the deadline
  again and behaves as a first submission would under what it then reads: it fails with
  \<open>DeadlineExpired\<close> again, sending nothing, whenever the deadline it fetches has then
  passed, and otherwise goes on to the completeness test and the writes. The same holds
  after \<open>IncompleteBallot\<close>, and in part_004 after \<open>SubmissionError\<close> as well: the form
  stays, and a new attempt is worth a first one.
\<close>

theorem failed_submission_not_terminal:
  assumes "form_rendered st"
  shows "(fst (handleSubmit voter env st) = DeadlineExpired \<or>
          fst (handleSubmit voter env st) = IncompleteBallot \<longrightarrow>
            fst (snd (handleSubmit voter env st)) = [] \<and>
            snd (snd (handleSubmit voter env st)) = st\<lparr>isSubmitting := False, error := None\<rparr> \<and>
            form_rendered (snd (snd (handleSubmit voter env st))) \<and>
            handleSubmit voter env' (snd (snd (handleSubmit voter env st)))
              = handleSubmit voter env' st) \<and>
         (fst (handleSubmit_004 voter env later st) \<noteq> Submitted \<longrightarrow>
            snd (snd (handleSubmit_004 voter env later st))
              = st\<lparr>isSubmitting := False, error := None\<rparr> \<and>
            form_rendered (snd (snd (handleSubmit_004 voter env later st))) \<and>
            handleSubmit_004 voter env' later' (snd (snd (handleSubmit_004 voter env later st)))
              = handleSubmit_004 voter env' later' st) \<and>
         (resp_error (deadline_query env') = None \<and> votingHasEnded env' \<longrightarrow>
            fst (handleSubmit voter env' st) = DeadlineExpired \<and>
            fst (snd (handleSubmit voter env' st)) = [] \<and>
            fst (handleSubmit_004 voter env' later' st) = DeadlineExpired \<and>
            fst (snd (handleSubmit_004 voter env' later' st)) = [])"
proof -
  have rendered: "form_rendered (st\<lparr>isSubmitting := False, error := None\<rparr>)"
    using assms by (simp add: form_rendered_def)
  have strict: "fst (handleSubmit voter env st) = DeadlineExpired \<or>
          fst (handleSubmit voter env st) = IncompleteBallot \<longrightarrow>
            fst (snd (handleSubmit voter env st)) = [] \<and>
            snd (snd (handleSubmit voter env st)) = st\<lparr>isSubmitting := False, error := None\<rparr>"
    by (simp add: handleSubmit_def Let_def split: option.splits)
  have alerts: "fst (handleSubmit_004 voter env later st) \<noteq> Submitted \<longrightarrow>
            snd (snd (handleSubmit_004 voter env later st))
              = st\<lparr>isSubmitting := False, error := None\<rparr>"
    by (simp add: handleSubmit_004_def Let_def split: option.splits)
  have again: "resp_error (deadline_query env') = None \<and> votingHasEnded env' \<longrightarrow>
            fst (handleSubmit voter env' st) = DeadlineExpired \<and>
            fst (snd (handleSubmit voter env' st)) = [] \<and>
            fst (handleSubmit_004 voter env' later' st) = DeadlineExpired \<and>
            fst (snd (handleSubmit_004 voter env' later' st)) = []"
    by (simp add: handleSubmit_def handleSubmit_004_def Let_def)
  show ?thesis
    using strict alerts again rendered
      handleSubmit_again [of voter env' st] handleSubmit_004_again [of voter env' later' st]
    by metis
qed

text \<open>
  The witness: a complete ballot submitted after the deadline stays on the form, and a
  second attempt after the same deadline fails in the same way; in part_004 the store
  refuses the insert, and the next attempt of the same session, the store accepting,
  succeeds.
\<close>

theorem failed_submission_not_terminal_witness:
  "form_rendered complete_ballot \<and>
   fst (handleSubmit sample_voter (accepting_store 200 [Some 100]) complete_ballot)
     = DeadlineExpired \<and>
   form_rendered
     (snd (snd (handleSubmit sample_voter (accepting_store 200 [Some 100]) complete_ballot))) \<and>
   fst (handleSubmit sample_voter (accepting_store 300 [Some 100])
         (snd (snd (handleSubmit sample_voter (accepting_store 200 [Some 100]) complete_ballot))))
     = DeadlineExpired \<and>
   fst (handleSubmit_004 sample_voter
         ((accepting_store 50 [Some 100])\<lparr>insert_error := (\<lambda>_. Some ''offline'')\<rparr>) 51
         complete_ballot)
     = SubmissionError ''offline'' \<and>
   form_rendered
     (snd (snd (handleSubmit_004 sample_voter
         ((accepting_store 50 [Some 100])\<lparr>insert_error := (\<lambda>_. Some ''offline'')\<rparr>) 51
         complete_ballot))) \<and>
   fst (handleSubmit_004 sample_voter (accepting_store 60 [Some 100]) 61
         (snd (snd (handleSubmit_004 sample_voter
            ((accepting_store 50 [Some 100])\<lparr>insert_error := (\<lambda>_. Some ''offline'')\<rparr>) 51
            complete_ballot))))
     = Submitted"
proof -
  define refusing where
    "refusing = (accepting_store 50 [Some 100])\<lparr>insert_error := (\<lambda>_. Some ''offline'')\<rparr>"
  have f: "form_rendered complete_ballot"
    by (simp add: form_rendered_def complete_ballot_eq)
  have len: "length (filledPositions complete_ballot) = length (positions complete_ballot)"
    by (simp add: filledPositions_def Object_values_def complete_ballot_eq own_properties_sample)
  have d: "fst (handleSubmit sample_voter (accepting_store 200 [Some 100]) complete_ballot)
             = DeadlineExpired"
    by (simp add: handleSubmit_def votingHasEnded_def deadline_passed_def accepting_store_def
        Let_def)
  have e: "resp_error (deadline_query (accepting_store 300 [Some 100])) = None \<and>
           votingHasEnded (accepting_store 300 [Some 100])"
    by (simp add: votingHasEnded_def deadline_passed_def accepting_store_def)
  have x: "fst (handleSubmit_004 sample_voter refusing 51 complete_ballot)
             = SubmissionError ''offline''"
    by (simp add: handleSubmit_004_def votingHasEnded_def deadline_passed_def
        accepting_store_def refusing_def Let_def len)
  have ok: "fst (handleSubmit_004 sample_voter (accepting_store 60 [Some 100]) 61 complete_ballot)
              = Submitted"
    by (simp add: handleSubmit_004_def votingHasEnded_def deadline_passed_def
        accepting_store_def Let_def len)
  note t1 = failed_submission_not_terminal [OF f, where voter = sample_voter
      and env = "accepting_store 200 [Some 100]" and env' = "accepting_store 300 [Some 100]"
      and later = 51 and later' = 61]
  note t2 = failed_submission_not_terminal [OF f, where voter = sample_voter
      and env = refusing and env' = "accepting_store 60 [Some 100]"
      and later = 51 and later' = 61]
  from t1 d e have
    "form_rendered
       (snd (snd (handleSubmit sample_voter (accepting_store 200 [Some 100]) complete_ballot)))"
    and "fst (handleSubmit sample_voter (accepting_store 300 [Some 100])
         (snd (snd (handleSubmit sample_voter (accepting_store 200 [Some 100]) complete_ballot))))
       = DeadlineExpired"
    by metis+
  moreover from t2 x ok have
    "form_rendered (snd (snd (handleSubmit_004 sample_voter refusing 51 complete_ballot)))"
    and "fst (handleSubmit_004 sample_voter (accepting_store 60 [Some 100]) 61
           (snd (snd (handleSubmit_004 sample_voter refusing 51 complete_ballot))))
         = Submitted"
    by (metis outcome.distinct)+
  ultimately show ?thesis
    using f d x unfolding refusing_def by blast
qed

text \<open>
  After \<open>IncompleteBallot\<close> the voter goes on: with Best Dish still unset the submission
  is refused, the voter then chooses Cy, and the next attempt succeeds.
\<close>

lemma retry_after_incomplete_ballot:
  "fst (handleSubmit sample_voter (accepting_store 50 [Some 100])
         (handleSelectCandidate ''Best Speaker'' 1 sample_ballot)) = IncompleteBallot \<and>
   fst (handleSubmit sample_voter (accepting_store 60 [Some 100])
         (handleSelectCandidate ''Best Dish'' 3
           (snd (snd (handleSubmit sample_voter (accepting_store 50 [Some 100])
              (handleSelectCandidate ''Best Speaker'' 1 sample_ballot)))))) = Submitted"
proof -
  define st where "st = handleSelectCandidate ''Best Speaker'' 1 sample_ballot"
  have sel: "selections st = [(''Best Speaker'', Some 1), (''Best Dish'', None)]"
    and ps: "positions st = [''Best Speaker'', ''Best Dish'']"
    by (simp_all add: st_def sample_ballot_eq handleSelectCandidate_def obj_set_def)
  have f: "filledPositions st = [Some 1]"
    by (simp add: filledPositions_def Object_values_def sel own_properties_sample)
  have 1: "handleSubmit sample_voter (accepting_store 50 [Some 100]) st
             = (IncompleteBallot, [], st\<lparr>isSubmitting := False, error := None\<rparr>)"
    by (simp add: handleSubmit_def votingHasEnded_def deadline_passed_def accepting_store_def
        Let_def f ps)
  have 2: "handleSelectCandidate ''Best Dish'' 3 (st\<lparr>isSubmitting := False, error := None\<rparr>)
             = complete_ballot"
    by (simp add: st_def complete_ballot_eq sample_ballot_eq handleSelectCandidate_def
        obj_set_def)
  have len: "length (filledPositions complete_ballot) = length (positions complete_ballot)"
    by (simp add: filledPositions_def Object_values_def complete_ballot_eq own_properties_sample)
  have 3: "fst (handleSubmit sample_voter (accepting_store 60 [Some 100]) complete_ballot)
             = Submitted"
    by (simp add: handleSubmit_def votingHasEnded_def deadline_passed_def accepting_store_def
        Let_def len)
  show ?thesis
    by (simp add: 1 2 3 flip: st_def)
qed

text \<open>
  In part_000 the \<^verbatim>\<open>catch\<close> block also sets \<^verbatim>\<open>error\<close> (lines 137-139), and the
  component then returns the error text alone (lines 163-171): after a
  \<open>SubmissionError\<close> the form is gone and the session offers no second attempt, where
  part_004, which only alerts, keeps the form.
\<close>

lemma handleSubmit_error_screen:
  "fst (handleSubmit voter env st) = SubmissionError msg \<Longrightarrow>
   \<not> form_rendered (snd (snd (handleSubmit voter env st)))"
  by (simp add: handleSubmit_def form_rendered_def Let_def split: option.splits if_splits)

lemma handleSubmit_error_screen_sample:
  "form_rendered complete_ballot \<and>
   fst (handleSubmit sample_voter
         ((accepting_store 50 [Some 100])\<lparr>insert_error := (\<lambda>_. Some ''offline'')\<rparr>)
         complete_ballot) = SubmissionError ''offline'' \<and>
   error (snd (snd (handleSubmit sample_voter
         ((accepting_store 50 [Some 100])\<lparr>insert_error := (\<lambda>_. Some ''offline'')\<rparr>)
         complete_ballot))) = Some ''Error submitting vote: offline'' \<and>
   \<not> form_rendered (snd (snd (handleSubmit sample_voter
         ((accepting_store 50 [Some 100])\<lparr>insert_error := (\<lambda>_. Some ''offline'')\<rparr>)
         complete_ballot)))"
proof -
  have len: "length (filledPositions complete_ballot) = length (positions complete_ballot)"
    by (simp add: filledPositions_def Object_values_def complete_ballot_eq own_properties_sample)
  show ?thesis
    by (simp add: handleSubmit_def votingHasEnded_def deadline_passed_def accepting_store_def
        Let_def len form_rendered_def)
      (simp add: complete_ballot_eq)
qed

text \<open>
  The claim as stated fails. A complete ballot is submitted at time 200 against the
  deadline 100 and fails with \<open>DeadlineExpired\<close>; the deadline in the store is then moved
  to 1000, and the next submission of the same session, at time 300, sends both writes
  and succeeds.
\<close>

theorem submit_after_deadline_expired:
  "fst (handleSubmit sample_voter (accepting_store 200 [Some 100]) complete_ballot)
     = DeadlineExpired \<and>
   handleSubmit sample_voter (accepting_store 300 [Some 1000])
       (snd (snd (handleSubmit sample_voter (accepting_store 200 [Some 100]) complete_ballot)))
     = (Submitted,
        [InsertVotes [\<lparr>voter_id = 42, candidate_id = 1\<rparr>, \<lparr>voter_id = 42, candidate_id = 3\<rparr>],
         MarkVoted 42],
        complete_ballot)"
proof -
  have 1: "handleSubmit sample_voter (accepting_store 200 [Some 100]) complete_ballot
             = (DeadlineExpired, [], complete_ballot)"
    by (simp add: handleSubmit_def votingHasEnded_def deadline_passed_def accepting_store_def
        Let_def complete_ballot_eq)
  have f: "filledPositions complete_ballot = [Some 1, Some 3]"
    by (simp add: filledPositions_def Object_values_def complete_ballot_eq own_properties_sample)
  have 2: "handleSubmit sample_voter (accepting_store 300 [Some 1000]) complete_ballot
             = (Submitted,
                [InsertVotes [\<lparr>voter_id = 42, candidate_id = 1\<rparr>,
                              \<lparr>voter_id = 42, candidate_id = 3\<rparr>],
                 MarkVoted 42],
                complete_ballot)"
    by (simp add: handleSubmit_def votingHasEnded_def deadline_passed_def accepting_store_def
        Let_def votes_of_complete_ballot f)
      (simp add: complete_ballot_eq sample_voter_def)
  show ?thesis by (simp add: 1 2)
qed


subsection \<open>No deadline in the store\<close>

text \<open>
  C9. When the deadline query answers no row (and no error), no deadline is enforced,
  whatever the clock: in every state of a session (the own keys of \<^verbatim>\<open>selections\<close> are
  distinct positions of the ballot, by \<open>reachable_keys_within_positions\<close>) where every
  position holds a candidate, \<^verbatim>\<open>handleSubmit\<close> sends the insert and the update and,
  the store accepting both, ends in success. So does \<^verbatim>\<open>submitVote\<close> (which sends no
  insert when there is no position at all).
\<close>

theorem absent_deadline_not_enforced:
  assumes "resp_error (deadline_query env) = None"
    and "resp_data (deadline_query env) = None \<or> resp_data (deadline_query env) = Some []"
    and "keys_within_positions st"
    and "\<And>p. p \<in> set (positions st) \<Longrightarrow> obj_get (selections st) p = Some (Some (choice p))"
    and "insert_error env (votes_of voter st) = None"
    and "update_error env (Voter_id voter) = None"
  shows "handleSubmit voter env st
           = (Submitted, [InsertVotes (votes_of voter st), MarkVoted (Voter_id voter)],
              st\<lparr>isSubmitting := False, error := None\<rparr>) \<and>
         submitVote voter env st
           = (Submitted,
              (if positions st = [] then [] else [InsertVotes (votes_of voter st)])
                @ [MarkVoted (Voter_id voter)],
              st\<lparr>isSubmitting := False, error := None\<rparr>)"
proof -
  have all: "\<forall>p\<in>set (positions st). \<exists>c. obj_get (selections st) p = Some (Some c)"
    using assms(4) by blast
  have len: "length (filledPositions st) = length (positions st)"
    using length_filledPositions [OF assms(3)] all by blast
  then have lenv: "length (votes_of voter st) = length (positions st)"
    by (simp add: votes_of_def)
  have open1: "\<not> votingHasEnded env"
    using assms(2) by (auto simp: votingHasEnded_def)
  have open2: "\<not> votingHasEnded_001 env"
    using assms(1,2) by (auto simp: votingHasEnded_001_def single_def)
  have strict: "handleSubmit voter env st
           = (Submitted, [InsertVotes (votes_of voter st), MarkVoted (Voter_id voter)],
              st\<lparr>isSubmitting := False, error := None\<rparr>)"
    using assms(1,5,6) open1 len by (simp add: handleSubmit_def Let_def)
  have permissive: "submitVote voter env st
           = (Submitted,
              (if positions st = [] then [] else [InsertVotes (votes_of voter st)])
                @ [MarkVoted (Voter_id voter)],
              st\<lparr>isSubmitting := False, error := None\<rparr>)"
  proof -
    have "votes_of voter st = [] \<longleftrightarrow> positions st = []"
      using lenv by (metis length_0_conv)
    then show ?thesis
      using assms(5,6) open2 by (simp add: submitVote_def Let_def votes_of_001_eq)
  qed
  from strict permissive show ?thesis by simp
qed

text \<open>
  The witness is again the ballot with a position named \<^verbatim>\<open>__proto__\<close>, both
  positions chosen, at a clock far in the future.
\<close>

theorem absent_deadline_not_enforced_witness:
  "deadline_query (accepting_store 999999 []) = Response (Some []) None \<and>
   keys_within_positions proto_complete \<and>
   handleSubmit sample_voter (accepting_store 999999 []) proto_complete
     = (Submitted,
        [InsertVotes [\<lparr>voter_id = 42, candidate_id = 2\<rparr>, \<lparr>voter_id = 42, candidate_id = 1\<rparr>],
         MarkVoted 42],
        proto_complete) \<and>
   submitVote sample_voter (accepting_store 999999 []) proto_complete
     = (Submitted,
        [InsertVotes [\<lparr>voter_id = 42, candidate_id = 2\<rparr>, \<lparr>voter_id = 42, candidate_id = 1\<rparr>],
         MarkVoted 42],
        proto_complete)"
proof -
  define choice where "choice = (\<lambda>p. if p = ''B'' then (2::int) else 1)"
  have c: "\<And>p. p \<in> set (positions proto_complete) \<Longrightarrow>
             obj_get (selections proto_complete) p = Some (Some (choice p))"
    by (auto simp: proto_complete_eq obj_get_def choice_def)
  have q: "deadline_query (accepting_store 999999 []) = Response (Some []) None"
    by (simp add: accepting_store_def)
  have a: "resp_error (deadline_query (accepting_store 999999 [])) = None"
    by (simp add: q)
  have b: "resp_data (deadline_query (accepting_store 999999 [])) = None \<or>
           resp_data (deadline_query (accepting_store 999999 [])) = Some []"
    by (simp add: q)
  have i: "insert_error (accepting_store 999999 []) (votes_of sample_voter proto_complete) = None"
    by (simp add: accepting_store_def)
  have u: "update_error (accepting_store 999999 []) (Voter_id sample_voter) = None"
    by (simp add: accepting_store_def)
  have v: "Voter_id sample_voter = 42"
    by (simp add: sample_voter_def)
  have s: "proto_complete\<lparr>isSubmitting := False, error := None\<rparr> = proto_complete"
    by (simp add: proto_complete_eq)
  have p: "positions proto_complete \<noteq> []"
    by (simp add: proto_complete_eq)
  note t = absent_deadline_not_enforced [OF a b keys_within_positions_proto_complete c i u]
  from t show ?thesis
    by (simp only: q s p v votes_of_proto_complete keys_within_positions_proto_complete
        if_False append.simps simp_thms)
qed

subsection \<open>The permissive flow with nothing chosen\<close>

text \<open>
  C10. In \<^verbatim>\<open>submitVote\<close> (part_001), in every state of a session (the own keys of
  \<^verbatim>\<open>selections\<close> are distinct positions of the ballot, by
  \<open>reachable_keys_within_positions\<close>) where no position holds a candidate (each is unset
  or skipped), with the deadline not passed, no insert is sent at all; the only write is
  the update that marks the voter as having voted, and the submission ends in success
  when the store accepts that update.
\<close>

theorem permissive_empty_ballot_marks_voter:
  assumes "keys_within_positions st"
    and "\<And>p c. p \<in> set (positions st) \<Longrightarrow> obj_get (selections st) p \<noteq> Some (Some c)"
    and "\<not> votingHasEnded_001 env"
  shows "fst (snd (submitVote voter env st)) = [MarkVoted (Voter_id voter)] \<and>
         fst (submitVote voter env st)
           = (case update_error env (Voter_id voter) of
                None \<Rightarrow> Submitted
              | Some msg \<Rightarrow> SubmissionError msg)"
proof -
  have "\<forall>kv\<in>set (selections st). snd kv = None"
  proof
    fix kv assume kv: "kv \<in> set (selections st)"
    from values_within_positions [OF assms(1) kv]
    have k: "fst kv \<in> set (positions st)"
      and g: "obj_get (selections st) (fst kv) = Some (snd kv)"
      by simp_all
    show "snd kv = None"
    proof (cases "snd kv")
      case None
      then show ?thesis .
    next
      case (Some c)
      with g assms(2) [OF k, of c] show ?thesis by simp
    qed
  qed
  then have "votes_of_001 voter st = []"
    by (rule votes_of_001_none)
  then show ?thesis
    using assms(3) by (simp add: submitVote_def Let_def split: option.splits)
qed

text \<open>
  The witness is the ballot with a position named \<^verbatim>\<open>__proto__\<close> as part_001 loads
  it, the other position skipped: \<^verbatim>\<open>selections\<close> is \<^verbatim>\<open>{B: null}\<close>.
\<close>

theorem permissive_empty_ballot_marks_voter_witness:
  "keys_within_positions proto_ballot_001 \<and>
   positions proto_ballot_001 = [''__proto__'', ''B''] \<and>
   selections proto_ballot_001 = [(''B'', None)] \<and>
   skipped proto_ballot_001 = {''B''} \<and>
   \<not> votingHasEnded_001 (accepting_store 50 [Some 100]) \<and>
   fst (snd (submitVote sample_voter (accepting_store 50 [Some 100]) proto_ballot_001))
     = [MarkVoted 42] \<and>
   fst (submitVote sample_voter (accepting_store 50 [Some 100]) proto_ballot_001) = Submitted"
proof -
  have ps: "positions proto_ballot_001 = [''__proto__'', ''B'']"
    and sel: "selections proto_ballot_001 = [(''B'', None)]"
    and sk: "skipped proto_ballot_001 = {''B''}"
    by (simp_all add: proto_ballot_001_def loadCandidates_001_def proto_candidates_def
        initial_state_def spread_Set_def assign_null_def toggleSkip_001_def obj_set_def)
  have k: "keys_within_positions proto_ballot_001"
    by (simp add: keys_within_positions_def ps sel)
  have n: "\<And>p c. p \<in> set (positions proto_ballot_001) \<Longrightarrow>
             obj_get (selections proto_ballot_001) p \<noteq> Some (Some c)"
    by (auto simp: ps sel obj_get_def)
  have e: "\<not> votingHasEnded_001 (accepting_store 50 [Some 100])"
    by (simp add: votingHasEnded_001_def single_def accepting_store_def deadline_passed_def)
  have u: "update_error (accepting_store 50 [Some 100]) 42 = None"
    by (simp add: accepting_store_def)
  have v: "Voter_id sample_voter = 42"
    by (simp add: sample_voter_def)
  show ?thesis
    using permissive_empty_ballot_marks_voter [OF k n e, of sample_voter] k e ps sel sk
    by (simp add: u v)
qed

end
